theory Spec2Isabelle
  imports Main "HOL-Library.Sublist"
begin

section \<open>JavaScript strings\<close>

text \<open>
  Strings of the extension are modelled as lists of 8-bit characters. The URLs that the
  browser hands to a request listener are serialised URLs, hence ASCII; case conversion
  therefore acts on the letters A-Z and leaves every other character alone.
\<close>

definition toLowerChar :: "char \<Rightarrow> char" where
  "toLowerChar c =
     (case map_of (zip ''ABCDEFGHIJKLMNOPQRSTUVWXYZ'' ''abcdefghijklmnopqrstuvwxyz'') c of
        Some d \<Rightarrow> d | None \<Rightarrow> c)"

definition toUpperChar :: "char \<Rightarrow> char" where
  "toUpperChar c =
     (case map_of (zip ''abcdefghijklmnopqrstuvwxyz'' ''ABCDEFGHIJKLMNOPQRSTUVWXYZ'') c of
        Some d \<Rightarrow> d | None \<Rightarrow> c)"

definition toLowerCase :: "string \<Rightarrow> string" where
  "toLowerCase s = map toLowerChar s"

text \<open>\<^verbatim>\<open>s.startsWith(p)\<close> and \<^verbatim>\<open>s.includes(p)\<close>.\<close>

definition startsWith :: "string \<Rightarrow> string \<Rightarrow> bool" where
  "startsWith s p = prefix p s"

fun includesStr :: "string \<Rightarrow> string \<Rightarrow> bool" where
  "includesStr [] p = (p = [])"
| "includesStr (c # cs) p = (prefix p (c # cs) \<or> includesStr cs p)"

text \<open>\<^verbatim>\<open>s.replace(/^https?:\/\//, '')\<close> and \<^verbatim>\<open>s.replace(/^www\./, '')\<close>: the
  regular expressions are anchored at the start and have no flag, so they remove one
  literal prefix when it is there.\<close>

definition stripProtocol :: "string \<Rightarrow> string" where
  "stripProtocol s =
     (if prefix ''https://'' s then drop 8 s
      else if prefix ''http://'' s then drop 7 s
      else s)"

definition stripWww :: "string \<Rightarrow> string" where
  "stripWww s = (if prefix ''www.'' s then drop 4 s else s)"

section \<open>Regular expressions of the block patterns\<close>

text \<open>
  The fragment of regular expressions that \<^verbatim>\<open>buildPatternForSites\<close> produces:
  literal characters, concatenation, alternation and the optional group. \<open>Invalid\<close>
  stands for a pattern text that is not in this fragment; it matches nothing.
\<close>

datatype regex = Eps | Lit char | Cat regex regex | Alt regex regex | Opt regex | Invalid

text \<open>Under the flag \<^verbatim>\<open>i\<close> two characters match when their canonical (upper case) forms
  are equal.\<close>

definition canonicalize :: "char \<Rightarrow> char" where
  "canonicalize c = toUpperChar c"

text \<open>\<open>rmatch r s\<close> lists, in the order in which a backtracking matcher tries them, the
  rests of \<open>s\<close> after each way of matching \<open>r\<close> at the start of \<open>s\<close>.\<close>

fun rmatch :: "regex \<Rightarrow> string \<Rightarrow> string list" where
  "rmatch Eps s = [s]"
| "rmatch (Lit c) s =
     (case s of [] \<Rightarrow> [] | x # xs \<Rightarrow> if canonicalize x = canonicalize c then [xs] else [])"
| "rmatch (Cat r1 r2) s = concat (map (rmatch r2) (rmatch r1 s))"
| "rmatch (Alt r1 r2) s = rmatch r1 s @ rmatch r2 s"
| "rmatch (Opt r) s = rmatch r s @ [s]"
| "rmatch Invalid s = []"

text \<open>\<^verbatim>\<open>regex.test(s)\<close> for a pattern that starts with \<^verbatim>\<open>^\<close> and has no
  \<^verbatim>\<open>m\<close> flag: only a match at index 0 counts.\<close>

definition regexTest :: "regex \<Rightarrow> string \<Rightarrow> bool" where
  "regexTest r s = (rmatch r s \<noteq> [])"

definition backslash :: char where
  "backslash = CHR 0x5C"

text \<open>The characters of the class \<^verbatim>\<open>[.*+?^${}()|[\]\\]\<close>.\<close>

definition isSyntaxChar :: "char \<Rightarrow> bool" where
  "isSyntaxChar c = (c \<in> set ''.*+?^${}()|[]'' \<or> c = backslash)"

text \<open>\<^verbatim>\<open>site.replace(/[.*+?^${}()|[\]\\]/g, '\\$&')\<close>: a backslash goes in front of every
  syntax character.\<close>

fun escapeRegExp :: "string \<Rightarrow> string" where
  "escapeRegExp [] = []"
| "escapeRegExp (c # cs) =
     (if isSyntaxChar c then backslash # c # escapeRegExp cs else c # escapeRegExp cs)"

text \<open>Reading one alternative of the pattern text back: an escaped syntax character and an
  ordinary character each stand for themselves; anything else is outside the fragment.\<close>

fun compileLiteral :: "string \<Rightarrow> regex option" where
  "compileLiteral [] = Some Eps"
| "compileLiteral [c] = (if isSyntaxChar c then None else Some (Cat (Lit c) Eps))"
| "compileLiteral (c # d # cs) =
     (if c = backslash then
        (if isSyntaxChar d then map_option (Cat (Lit d)) (compileLiteral cs) else None)
      else if isSyntaxChar c then None
      else map_option (Cat (Lit c)) (compileLiteral (d # cs)))"

fun literal :: "string \<Rightarrow> regex" where
  "literal [] = Eps"
| "literal (c # cs) = Cat (Lit c) (literal cs)"

fun alternatives :: "regex list \<Rightarrow> regex" where
  "alternatives [] = Eps"
| "alternatives [r] = r"
| "alternatives (r # rs) = Alt r (alternatives rs)"

text \<open>\<^verbatim>\<open>site.replace(/^(https?:\/\/)?(www\.)?/, '')\<close>: both groups are optional and
  greedy, so the protocol goes first and then a leading \<^verbatim>\<open>www.\<close>.\<close>

definition stripSite :: "string \<Rightarrow> string" where
  "stripSite site = stripWww (stripProtocol site)"

definition compileSite :: "string \<Rightarrow> regex" where
  "compileSite site =
     (case compileLiteral (escapeRegExp (stripSite site)) of
        Some r \<Rightarrow> r
      | None \<Rightarrow> Invalid)"

text \<open>\<^verbatim>\<open>buildPatternForSites(sites)\<close>: \<open>None\<close> is \<^verbatim>\<open>null\<close>; otherwise the regular
  expression \<^verbatim>\<open>^https?://(www\.)?(site1|site2|...)\<close> with flag \<^verbatim>\<open>i\<close>.\<close>

definition buildPatternForSites :: "string list \<Rightarrow> regex option" where
  "buildPatternForSites sites =
     (if sites = [] then None
      else Some (Cat (literal ''http'')
                (Cat (Opt (Lit CHR ''s''))
                (Cat (literal ''://'')
                (Cat (Opt (literal ''www.''))
                     (alternatives (map compileSite sites)))))))"

text \<open>\<^verbatim>\<open>pattern && pattern.test(url)\<close>.\<close>

definition patternTest :: "regex option \<Rightarrow> string \<Rightarrow> bool" where
  "patternTest pattern url = (case pattern of None \<Rightarrow> False | Some r \<Rightarrow> regexTest r url)"

text \<open>A prefix test that ignores the case of letters, used to state what a pattern
  accepts.\<close>

definition startsWithIgnoreCase :: "string \<Rightarrow> string \<Rightarrow> bool" where
  "startsWithIgnoreCase s p = prefix (map canonicalize p) (map canonicalize s)"

text \<open>\<^verbatim>\<open>s.endsWith(p)\<close>.\<close>

definition endsWith :: "string \<Rightarrow> string \<Rightarrow> bool" where
  "endsWith s p = suffix p s"

text \<open>\<^verbatim>\<open>encodeURIComponent\<close>: letters, digits and \<^verbatim>\<open>- _ . ! ~ * ' ( )\<close> stay, every
  other character becomes the percent-encoded bytes of its UTF-8 form.\<close>

definition isUnreserved :: "char \<Rightarrow> bool" where
  "isUnreserved c =
     (c \<in> set ''ABCDEFGHIJKLMNOPQRSTUVWXYZabcdefghijklmnopqrstuvwxyz0123456789-_.!~*()''
      \<or> c = CHR 0x27)"

definition percentByte :: "nat \<Rightarrow> string" where
  "percentByte n = [CHR ''%'', ''0123456789ABCDEF'' ! (n div 16), ''0123456789ABCDEF'' ! (n mod 16)]"

definition encodeChar :: "char \<Rightarrow> string" where
  "encodeChar c =
     (let n = (of_char c :: nat) in
      if isUnreserved c then [c]
      else if n < 128 then percentByte n
      else percentByte (192 + n div 64) @ percentByte (128 + n mod 64))"

definition encodeURIComponent :: "string \<Rightarrow> string" where
  "encodeURIComponent s = concat (map encodeChar s)"

section \<open>State of the background script\<close>

text \<open>The constants at the top of the script.\<close>

definition DEFAULT_BLOCKED_SITES :: "string list" where
  "DEFAULT_BLOCKED_SITES =
     [''facebook.com'', ''twitter.com'', ''x.com'', ''instagram.com'', ''tiktok.com'',
      ''reddit.com'', ''youtube.com'', ''twitch.tv'', ''netflix.com'', ''discord.com'']"

record usageReport =
  reportDomain :: string
  reportSeconds :: int

record punishmentState =
  is_locked :: bool
  lock_time_remaining :: int

text \<open>\<^verbatim>\<open>browser.storage.local\<close>: each key is absent (\<open>None\<close>) or holds a value. The
  set of checked domains is stored as an array; its order plays no role and is left out.\<close>

record storage =
  storedBlockedSites :: "string list option"
  storedAlwaysBlockedSites :: "string list option"
  storedWhitelistedUrls :: "string list option"
  storedBlockCount :: "nat option"
  storedPunishmentState :: "punishmentState option"
  storedAiCheckedDomains :: "string set option"
  storedIsBlocking :: "bool option"

text \<open>Calls that leave the script and are not awaited: the POST of
  \<^verbatim>\<open>reportAdultStrike\<close>, \<^verbatim>\<open>browser.tabs.update\<close>, and the POST of a usage
  report.\<close>

datatype effect =
  PostAdultStrike
| TabUpdate nat string
| PostUsage usageReport

text \<open>The top-level variables of the script, the three request listeners that may be
  registered with \<^verbatim>\<open>browser.webRequest.onBeforeRequest\<close>, the storage and the log of
  outgoing calls. Console output and the toolbar icon are not part of the state.\<close>

record ext =
  isBlocking :: bool
  blockedSites :: "string list"
  alwaysBlockedSites :: "string list"
  whitelistedUrls :: "string list"
  blockCount :: nat
  appConnected :: bool
  isPunishmentLocked :: bool
  usageReportQueue :: "usageReport list"
  aiCheckedDomains :: "string set"
  aiCheckInProgress :: "string set"
  sessionListener :: bool
  alwaysListener :: bool
  punishmentListener :: bool
  store :: storage
  effects :: "effect list"

text \<open>What \<^verbatim>\<open>fetch\<close> gives: it rejects (\<open>NetworkError\<close>), or it resolves to a response
  with its \<^verbatim>\<open>ok\<close> flag and the value \<^verbatim>\<open>response.json()\<close> would produce
  (\<open>None\<close> when parsing the body throws).\<close>

datatype 'a response = NetworkError | Response bool "'a option"

text \<open>The JSON bodies the script reads. A field that is missing is \<open>None\<close>.\<close>

record sitesBody =
  sitesField :: "string list option"
  alwaysBlockedField :: "string list option"
  whitelistField :: "string list option"

text \<open>The field \<^verbatim>\<open>method\<close> of the classifier's answer is \<open>nsfw_method\<close> here.\<close>

record checkResult =
  is_nsfw :: bool
  nsfw_method :: string

text \<open>The answers of the server to the requests of one sync cycle.\<close>

record net =
  statusResp :: "bool response"
  sitesResp :: "sitesBody response"
  punishmentResp :: "punishmentState response"
  cacheResp :: "string list option response"

text \<open>The result of a request listener: \<^verbatim>\<open>{}\<close> or \<^verbatim>\<open>{redirectUrl: ...}\<close>.\<close>

datatype decision = Allow | Redirect string

section \<open>Listeners\<close>

text \<open>\<^verbatim>\<open>browser.runtime.getURL(path)\<close>; the extension's base URL \<open>base\<close> is fixed by
  the browser at installation.\<close>

definition getURL :: "string \<Rightarrow> string \<Rightarrow> string" where
  "getURL base path = base @ path"

definition startBlocking :: "ext \<Rightarrow> ext" where
  "startBlocking st = st\<lparr>sessionListener := True\<rparr>"

definition stopBlocking :: "ext \<Rightarrow> ext" where
  "stopBlocking st = st\<lparr>sessionListener := False\<rparr>"

definition startAlwaysBlocking :: "ext \<Rightarrow> ext" where
  "startAlwaysBlocking st = st\<lparr>alwaysListener := True\<rparr>"

definition startPunishmentBlocking :: "ext \<Rightarrow> ext" where
  "startPunishmentBlocking st = st\<lparr>punishmentListener := True\<rparr>"

definition stopPunishmentBlocking :: "ext \<Rightarrow> ext" where
  "stopPunishmentBlocking st = st\<lparr>punishmentListener := False\<rparr>"

text \<open>\<^verbatim>\<open>isWhitelisted(url)\<close>: the body of the loop over the entries, then the function.\<close>

fun isWhitelistedLoop :: "string \<Rightarrow> string list \<Rightarrow> bool" where
  "isWhitelistedLoop normalizedUrl [] = False"
| "isWhitelistedLoop normalizedUrl (whitelistEntry # rest) =
     (let normalizedWhitelist = toLowerCase whitelistEntry in
      if normalizedUrl = normalizedWhitelist then True
      else if startsWith normalizedUrl normalizedWhitelist then True
      else
        let urlWithoutProtocol = stripProtocol normalizedUrl;
            whitelistWithoutProtocol = stripProtocol normalizedWhitelist in
        if urlWithoutProtocol = whitelistWithoutProtocol then True
        else if startsWith urlWithoutProtocol whitelistWithoutProtocol then True
        else
          let urlNoWww = stripWww urlWithoutProtocol;
              whitelistNoWww = stripWww whitelistWithoutProtocol in
          if urlNoWww = whitelistNoWww \<or> startsWith urlNoWww whitelistNoWww then True
          else isWhitelistedLoop normalizedUrl rest)"

definition isWhitelisted :: "ext \<Rightarrow> string \<Rightarrow> bool" where
  "isWhitelisted st url =
     (if whitelistedUrls st = [] then False
      else isWhitelistedLoop (toLowerCase url) (whitelistedUrls st))"

definition buildBlockPattern :: "ext \<Rightarrow> regex option" where
  "buildBlockPattern st = buildPatternForSites (blockedSites st)"

definition buildAlwaysBlockPattern :: "ext \<Rightarrow> regex option" where
  "buildAlwaysBlockPattern st = buildPatternForSites (alwaysBlockedSites st)"

text \<open>\<^verbatim>\<open>blockCount++; browser.storage.local.set({ blockCount })\<close>.\<close>

definition countBlock :: "ext \<Rightarrow> ext" where
  "countBlock st =
     st\<lparr>blockCount := blockCount st + 1,
        store := (store st)\<lparr>storedBlockCount := Some (blockCount st + 1)\<rparr>\<rparr>"

text \<open>\<^verbatim>\<open>blockRequest(details)\<close>, the listener of session blocking.\<close>

definition blockRequest :: "string \<Rightarrow> ext \<Rightarrow> string \<Rightarrow> decision \<times> ext" where
  "blockRequest base st url =
     (if isWhitelisted st url then (Allow, st)
      else if patternTest (buildBlockPattern st) url then
        (Redirect (getURL base ''blocked.html'' @ ''?url='' @ encodeURIComponent url),
         countBlock st)
      else (Allow, st))"

text \<open>\<^verbatim>\<open>reportAdultStrike()\<close> is called without \<^verbatim>\<open>await\<close>: the call issues the POST;
  its answer is handled later, by \<open>adultStrikeAnswered\<close>.\<close>

definition reportAdultStrike :: "ext \<Rightarrow> ext" where
  "reportAdultStrike st = st\<lparr>effects := effects st @ [PostAdultStrike]\<rparr>"

definition adultStrikeAnswered :: "punishmentState response \<Rightarrow> ext \<Rightarrow> ext" where
  "adultStrikeAnswered resp st =
     (case resp of
        Response True (Some data) \<Rightarrow>
          st\<lparr>store := (store st)\<lparr>storedPunishmentState := Some data\<rparr>\<rparr>
      | _ \<Rightarrow> st)"

text \<open>\<^verbatim>\<open>alwaysBlockRequest(details)\<close>, the listener for the always-blocked sites.\<close>

definition alwaysBlockRequest :: "string \<Rightarrow> ext \<Rightarrow> string \<Rightarrow> decision \<times> ext" where
  "alwaysBlockRequest base st url =
     (if patternTest (buildAlwaysBlockPattern st) url then
        (Redirect (getURL base ''blocked.html'' @ ''?url='' @ encodeURIComponent url
                   @ ''&adult=1''),
         reportAdultStrike (countBlock st))
      else (Allow, st))"

text \<open>\<^verbatim>\<open>punishmentBlockRequest(details)\<close>, the listener of the punishment lock. It
  changes no variable.\<close>

definition punishmentBlockRequest :: "string \<Rightarrow> string \<Rightarrow> decision" where
  "punishmentBlockRequest base url =
     (if startsWith url (getURL base '''') then Allow
      else if includesStr url ''127.0.0.1'' \<or> includesStr url ''localhost'' then Allow
      else Redirect (getURL base ''blocked.html'' @ ''?url='' @ encodeURIComponent url
                     @ ''&adult=1&punishment=1''))"

section \<open>Synchronisation with the desktop app\<close>

text \<open>\<^verbatim>\<open>fetchBlockedSites()\<close>: a rejected request and a body that does not parse end in the
  \<^verbatim>\<open>catch\<close>, a response that is not OK is skipped; none of them changes a variable.\<close>

definition fetchBlockedSites :: "sitesBody response \<Rightarrow> ext \<Rightarrow> ext" where
  "fetchBlockedSites resp st =
     (case resp of
        Response True (Some data) \<Rightarrow>
          (let st1 = (case sitesField data of
                        Some l \<Rightarrow>
                          if l \<noteq> [] then
                            st\<lparr>blockedSites := l,
                               store := (store st)\<lparr>storedBlockedSites := Some l\<rparr>\<rparr>
                          else st
                      | None \<Rightarrow> st);
               st2 = (case alwaysBlockedField data of
                        Some l \<Rightarrow>
                          if l \<noteq> [] then
                            st1\<lparr>alwaysBlockedSites := l,
                                store := (store st1)\<lparr>storedAlwaysBlockedSites := Some l\<rparr>\<rparr>
                          else st1
                      | None \<Rightarrow> st1)
           in (case whitelistField data of
                 Some l \<Rightarrow>
                   st2\<lparr>whitelistedUrls := l,
                       store := (store st2)\<lparr>storedWhitelistedUrls := Some l\<rparr>\<rparr>
               | None \<Rightarrow> st2))
      | _ \<Rightarrow> st)"

text \<open>\<^verbatim>\<open>checkCachedPunishmentStatus()\<close>.\<close>

definition checkCachedPunishmentStatus :: "ext \<Rightarrow> ext" where
  "checkCachedPunishmentStatus st =
     (case storedPunishmentState (store st) of
        None \<Rightarrow> st
      | Some status \<Rightarrow>
          (let wasLocked = isPunishmentLocked st in
           if is_locked status \<and> lock_time_remaining status > 0 then
             (let st1 = st\<lparr>isPunishmentLocked := True\<rparr> in
              if \<not> wasLocked then startPunishmentBlocking st1 else st1)
           else
             (let st1 = st\<lparr>isPunishmentLocked := False\<rparr> in
              if wasLocked then stopPunishmentBlocking st1 else st1)))"

text \<open>\<^verbatim>\<open>checkPunishmentStatus()\<close>.\<close>

definition checkPunishmentStatus :: "punishmentState response \<Rightarrow> ext \<Rightarrow> ext" where
  "checkPunishmentStatus resp st =
     (case resp of
        NetworkError \<Rightarrow> checkCachedPunishmentStatus st
      | Response False _ \<Rightarrow> st
      | Response True None \<Rightarrow> checkCachedPunishmentStatus st
      | Response True (Some status) \<Rightarrow>
          (let st1 = st\<lparr>store := (store st)\<lparr>storedPunishmentState := Some status\<rparr>\<rparr>;
               wasLocked = isPunishmentLocked st1;
               st2 = st1\<lparr>isPunishmentLocked := is_locked status\<rparr>
           in if isPunishmentLocked st2 \<and> \<not> wasLocked then startPunishmentBlocking st2
              else if \<not> isPunishmentLocked st2 \<and> wasLocked then stopPunishmentBlocking st2
              else st2))"

text \<open>\<^verbatim>\<open>syncAICache()\<close>.\<close>

definition syncAICache :: "string list option response \<Rightarrow> ext \<Rightarrow> ext" where
  "syncAICache resp st =
     (case resp of
        Response True (Some (Some checked_domains)) \<Rightarrow>
          st\<lparr>aiCheckedDomains := set checked_domains,
             store := (store st)\<lparr>storedAiCheckedDomains := Some (set checked_domains)\<rparr>\<rparr>
      | _ \<Rightarrow> st)"

text \<open>The \<^verbatim>\<open>catch\<close> branch of \<^verbatim>\<open>syncWithApp()\<close>.\<close>

definition syncFailed :: "ext \<Rightarrow> ext" where
  "syncFailed st =
     (let st1 = st\<lparr>appConnected := False\<rparr>;
          st2 = (if isBlocking st1 then stopBlocking (st1\<lparr>isBlocking := False\<rparr>) else st1)
      in checkCachedPunishmentStatus st2)"

text \<open>\<^verbatim>\<open>syncWithApp()\<close>, one cycle run to its end with the answers \<open>n\<close> of the server.
  The request for \<^verbatim>\<open>/status\<close> rejecting, or its body not parsing, throws before any
  assignment and leads to the \<^verbatim>\<open>catch\<close> branch; the functions called later catch
  their own errors.\<close>

definition syncWithApp :: "net \<Rightarrow> ext \<Rightarrow> ext" where
  "syncWithApp n st =
     (case statusResp n of
        NetworkError \<Rightarrow> syncFailed st
      | Response True None \<Rightarrow> syncFailed st
      | Response True (Some statusIsBlocking) \<Rightarrow>
          (let st1 = st\<lparr>appConnected := True\<rparr>;
               wasBlocking = isBlocking st1;
               st2 = st1\<lparr>isBlocking := statusIsBlocking\<rparr>;
               st3 = (if isBlocking st2 \<and> \<not> wasBlocking then
                        startBlocking (fetchBlockedSites (sitesResp n) st2)
                      else if \<not> isBlocking st2 \<and> wasBlocking then stopBlocking st2
                      else st2)
           in syncAICache (cacheResp n) (checkPunishmentStatus (punishmentResp n) st3))
      | Response False _ \<Rightarrow>
          syncAICache (cacheResp n)
            (checkPunishmentStatus (punishmentResp n) (st\<lparr>appConnected := False\<rparr>)))"

text \<open>The values of the variables when the script is loaded.\<close>

definition emptyStorage :: storage where
  "emptyStorage =
     \<lparr>storedBlockedSites = None, storedAlwaysBlockedSites = None,
      storedWhitelistedUrls = None, storedBlockCount = None, storedPunishmentState = None,
      storedAiCheckedDomains = None, storedIsBlocking = None\<rparr>"

definition loaded :: "storage \<Rightarrow> ext" where
  "loaded data =
     \<lparr>isBlocking = False, blockedSites = [], alwaysBlockedSites = [], whitelistedUrls = [],
      blockCount = 0, appConnected = False, isPunishmentLocked = False,
      usageReportQueue = [], aiCheckedDomains = {}, aiCheckInProgress = {},
      sessionListener = False, alwaysListener = False, punishmentListener = False,
      store = data, effects = []\<rparr>"

text \<open>\<^verbatim>\<open>initialize()\<close> up to the point where the first \<^verbatim>\<open>syncWithApp()\<close> waits for its
  answer: \<open>a || b\<close> takes \<open>b\<close> when the key is absent (a stored array is truthy even when
  empty).\<close>

definition initialize :: "storage \<Rightarrow> ext" where
  "initialize data =
     (let st0 = loaded data;
          st1 = st0\<lparr>blockedSites := (case storedBlockedSites data of
                                        Some l \<Rightarrow> l | None \<Rightarrow> DEFAULT_BLOCKED_SITES),
                    alwaysBlockedSites := (case storedAlwaysBlockedSites data of
                                        Some l \<Rightarrow> l | None \<Rightarrow> []),
                    whitelistedUrls := (case storedWhitelistedUrls data of
                                        Some l \<Rightarrow> l | None \<Rightarrow> []),
                    blockCount := (case storedBlockCount data of
                                        Some c \<Rightarrow> c | None \<Rightarrow> 0)\<rparr>;
          st2 = (case storedAiCheckedDomains data of
                   Some ds \<Rightarrow> st1\<lparr>aiCheckedDomains := ds\<rparr>
                 | None \<Rightarrow> st1);
          st3 = (case storedPunishmentState data of
                   Some p \<Rightarrow>
                     if is_locked p then
                       startPunishmentBlocking (st2\<lparr>isPunishmentLocked := True\<rparr>)
                     else st2
                 | None \<Rightarrow> st2)
      in startAlwaysBlocking st3)"

text \<open>The message \<^verbatim>\<open>manualToggle\<close> of the popup: the answer is the new value of
  \<^verbatim>\<open>isBlocking\<close>, or the error text.\<close>

definition manualToggle :: "ext \<Rightarrow> (string + bool) \<times> ext" where
  "manualToggle st =
     (if \<not> appConnected st then
        (let st1 = st\<lparr>isBlocking := \<not> isBlocking st\<rparr>;
             st2 = (if isBlocking st1 then startBlocking st1 else stopBlocking st1);
             st3 = st2\<lparr>store := (store st2)\<lparr>storedIsBlocking := Some (isBlocking st2)\<rparr>\<rparr>
         in (Inr (isBlocking st3), st3))
      else (Inl ''Controlled by desktop app'', st))"

section \<open>Classification of pages\<close>

text \<open>\<^verbatim>\<open>shouldCheckDomain(domain)\<close>.\<close>

definition shouldCheckDomain :: "ext \<Rightarrow> string \<Rightarrow> bool" where
  "shouldCheckDomain st domain =
     (if domain = [] then False
      else if domain \<in> aiCheckedDomains st then False
      else if domain \<in> aiCheckInProgress st then False
      else if domain = ''127.0.0.1'' \<or> domain = ''localhost'' then False
      else if endsWith domain ''.local'' then False
      else if patternTest (buildAlwaysBlockPattern st) (''https://'' @ domain) then False
      else if patternTest (buildBlockPattern st) (''https://'' @ domain) then False
      else True)"

text \<open>
  \<^verbatim>\<open>checkPageContent(tabId, url, domain)\<close> runs in two pieces that other events may
  separate. The first piece ends where the function returns early or has put the domain
  into \<^verbatim>\<open>aiCheckInProgress\<close>; \<open>ping\<close> is the answer to \<^verbatim>\<open>/ping\<close>, or \<open>None\<close> when
  the app was connected at the call and no ping was sent. The result says whether the
  check goes on.
\<close>

definition checkPageContentStart :: "unit response option \<Rightarrow> string \<Rightarrow> ext \<Rightarrow> bool \<times> ext" where
  "checkPageContentStart ping domain st =
     (let st1 = (case ping of
                   Some (Response True _) \<Rightarrow> st\<lparr>appConnected := True\<rparr>
                 | _ \<Rightarrow> st)
      in if \<not> appConnected st1 then (False, st1)
         else if \<not> shouldCheckDomain st1 domain then (False, st1)
         else (True, st1\<lparr>aiCheckInProgress := insert domain (aiCheckInProgress st1)\<rparr>))"

text \<open>The body of \<^verbatim>\<open>if (response.ok) { ... }\<close> for the parsed result.\<close>

definition classified :: "string \<Rightarrow> checkResult \<Rightarrow> nat \<Rightarrow> string \<Rightarrow> string \<Rightarrow> ext \<Rightarrow> ext" where
  "classified base result tabId url domain st =
     (let st1 = (if nsfw_method result \<noteq> ''disabled'' \<and> nsfw_method result \<noteq> ''no_api_key'' then
                   st\<lparr>aiCheckedDomains := insert domain (aiCheckedDomains st),
                      store := (store st)\<lparr>storedAiCheckedDomains :=
                                 Some (insert domain (aiCheckedDomains st))\<rparr>\<rparr>
                 else st)
      in if is_nsfw result then
           (let st2 = (if domain \<notin> set (alwaysBlockedSites st1) then
                         st1\<lparr>alwaysBlockedSites := alwaysBlockedSites st1 @ [domain],
                             store := (store st1)\<lparr>storedAlwaysBlockedSites :=
                                        Some (alwaysBlockedSites st1 @ [domain])\<rparr>\<rparr>
                       else st1);
                st3 = st2\<lparr>effects := effects st2 @
                        [TabUpdate tabId (getURL base ''blocked.html'' @ ''?url=''
                           @ encodeURIComponent url @ ''&adult=1&ai=1'')]\<rparr>
            in reportAdultStrike st3)
         else st1)"

text \<open>The second piece: the \<^verbatim>\<open>try\<close> block from the answer of \<^verbatim>\<open>/check-content\<close> on,
  its \<^verbatim>\<open>catch\<close> (a rejected request, a body that does not parse) and its
  \<^verbatim>\<open>finally\<close>. The page signals only fill the request and change no variable.\<close>

definition checkPageContentFinish ::
    "string \<Rightarrow> checkResult response \<Rightarrow> nat \<Rightarrow> string \<Rightarrow> string \<Rightarrow> ext \<Rightarrow> ext" where
  "checkPageContentFinish base resp tabId url domain st =
     (let st1 = (case resp of
                   Response True (Some result) \<Rightarrow> classified base result tabId url domain st
                 | _ \<Rightarrow> st)
      in st1\<lparr>aiCheckInProgress := aiCheckInProgress st1 - {domain}\<rparr>)"

text \<open>\<^verbatim>\<open>checkPageContent\<close> run from its call to its end with nothing in between.\<close>

definition checkPageContent ::
    "string \<Rightarrow> unit response \<Rightarrow> checkResult response \<Rightarrow> nat \<Rightarrow> string \<Rightarrow> string \<Rightarrow> ext \<Rightarrow> ext" where
  "checkPageContent base ping resp tabId url domain st =
     (case checkPageContentStart (if appConnected st then None else Some ping) domain st of
        (True, st1) \<Rightarrow> checkPageContentFinish base resp tabId url domain st1
      | (False, st1) \<Rightarrow> st1)"

section \<open>Usage reports\<close>

text \<open>The loop of \<^verbatim>\<open>flushUsageQueue()\<close> over the copy of the queue; \<open>answer i\<close> is
  what the \<open>i\<close>-th request of the pass gets. A response that is not OK puts the report
  back and goes on; a rejected request puts it back and leaves the loop.\<close>

fun flushLoop :: "(nat \<Rightarrow> unit response) \<Rightarrow> nat \<Rightarrow> usageReport list \<Rightarrow> ext \<Rightarrow> ext" where
  "flushLoop answer i [] st = st"
| "flushLoop answer i (r # queue) st =
     (let st1 = st\<lparr>effects := effects st @ [PostUsage r]\<rparr> in
      case answer i of
        NetworkError \<Rightarrow> st1\<lparr>usageReportQueue := usageReportQueue st1 @ [r]\<rparr>
      | Response False _ \<Rightarrow>
          flushLoop answer (Suc i) queue (st1\<lparr>usageReportQueue := usageReportQueue st1 @ [r]\<rparr>)
      | Response True _ \<Rightarrow> flushLoop answer (Suc i) queue st1)"

definition flushUsageQueue :: "(nat \<Rightarrow> unit response) \<Rightarrow> ext \<Rightarrow> ext" where
  "flushUsageQueue answer st =
     (if usageReportQueue st = [] then st
      else flushLoop answer 0 (usageReportQueue st) (st\<lparr>usageReportQueue := []\<rparr>))"

text \<open>\<^verbatim>\<open>reportWebsiteUsage(domain, seconds)\<close>; \<open>resp\<close> answers its own request and
  \<open>answer\<close> the requests of the flush it starts after a delivery.\<close>

definition reportWebsiteUsage ::
    "unit response \<Rightarrow> (nat \<Rightarrow> unit response) \<Rightarrow> string \<Rightarrow> int \<Rightarrow> ext \<Rightarrow> ext" where
  "reportWebsiteUsage resp answer domain secs st =
     (if domain = [] \<or> secs \<le> 0 then st
      else
        (let report = \<lparr>reportDomain = domain, reportSeconds = secs\<rparr>;
             st1 = st\<lparr>effects := effects st @ [PostUsage report]\<rparr>
         in case resp of
              Response True _ \<Rightarrow> flushUsageQueue answer st1
            | Response False _ \<Rightarrow> st1\<lparr>usageReportQueue := usageReportQueue st1 @ [report]\<rparr>
            | NetworkError \<Rightarrow> st1\<lparr>usageReportQueue := usageReportQueue st1 @ [report]\<rparr>))"

text \<open>For stating what a pass does: \<open>delivered\<close> is \<^verbatim>\<open>response.ok\<close> of an answer that
  arrived, and \<open>requeued answer i queue\<close> are the reports of \<open>queue\<close>, in order, whose
  requests (numbered from \<open>i\<close>) were not delivered.\<close>

definition delivered :: "unit response \<Rightarrow> bool" where
  "delivered a = (case a of Response True _ \<Rightarrow> True | _ \<Rightarrow> False)"

definition requeued :: "(nat \<Rightarrow> unit response) \<Rightarrow> nat \<Rightarrow> usageReport list \<Rightarrow> usageReport list" where
  "requeued answer i queue =
     map fst (filter (\<lambda>(r, a). \<not> delivered a) (zip queue (map answer [i..<i + length queue])))"

section \<open>Runs of the extension\<close>

text \<open>
  The script is single-threaded: between two suspension points a piece of code runs
  alone. A run is a sequence of such pieces. \<open>pending\<close> lists the domains of the calls
  of \<^verbatim>\<open>checkPageContent\<close> that have passed their first piece and not yet their second;
  an answer of the classifier can only arrive for one of them.
\<close>

datatype event =
  PageLoaded "unit response option" string
| ClassifierAnswered "checkResult response" nat string string
| SyncCycle net
| ManualToggle
| SessionRequest string
| AlwaysRequest string
| StrikeAnswered "punishmentState response"
| UsageReported "unit response" "nat \<Rightarrow> unit response" string int
| FlushTick "nat \<Rightarrow> unit response"

fun step :: "string \<Rightarrow> ext \<times> string list \<Rightarrow> event \<Rightarrow> ext \<times> string list" where
  "step base (st, pending) (PageLoaded ping domain) =
     (case checkPageContentStart ping domain st of
        (True, st1) \<Rightarrow> (st1, domain # pending)
      | (False, st1) \<Rightarrow> (st1, pending))"
| "step base (st, pending) (ClassifierAnswered resp tabId url domain) =
     (if domain \<in> set pending then
        (checkPageContentFinish base resp tabId url domain st, remove1 domain pending)
      else (st, pending))"
| "step base (st, pending) (SyncCycle n) = (syncWithApp n st, pending)"
| "step base (st, pending) ManualToggle = (snd (manualToggle st), pending)"
| "step base (st, pending) (SessionRequest url) =
     (if sessionListener st then snd (blockRequest base st url) else st, pending)"
| "step base (st, pending) (AlwaysRequest url) =
     (if alwaysListener st then snd (alwaysBlockRequest base st url) else st, pending)"
| "step base (st, pending) (StrikeAnswered resp) = (adultStrikeAnswered resp st, pending)"
| "step base (st, pending) (UsageReported resp answer domain secs) =
     (reportWebsiteUsage resp answer domain secs st, pending)"
| "step base (st, pending) (FlushTick answer) = (flushUsageQueue answer st, pending)"

definition run :: "string \<Rightarrow> storage \<Rightarrow> event list \<Rightarrow> ext \<times> string list" where
  "run base data events = foldl (step base) (initialize data, []) events"

section \<open>Example states\<close>

text \<open>A session with one blocked site and one whitelisted page of that site.\<close>

definition youtubeSession :: ext where
  "youtubeSession =
     (initialize emptyStorage)\<lparr>blockedSites := [''youtube.com''],
        whitelistedUrls := [''youtube.com/watch?v=abc'']\<rparr>"

text \<open>Answers of the server: the app reports a running session and nothing else answers;
  the server cannot be reached; the server answers every request with an error status.\<close>

definition sessionOnNet :: net where
  "sessionOnNet =
     \<lparr>statusResp = Response True (Some True), sitesResp = NetworkError,
      punishmentResp = NetworkError, cacheResp = NetworkError\<rparr>"

definition serverDownNet :: net where
  "serverDownNet =
     \<lparr>statusResp = NetworkError, sitesResp = NetworkError,
      punishmentResp = NetworkError, cacheResp = NetworkError\<rparr>"

definition serverErrorNet :: net where
  "serverErrorNet =
     \<lparr>statusResp = Response False None, sitesResp = Response False None,
      punishmentResp = Response False None, cacheResp = Response False None\<rparr>"

text \<open>The state after a fresh start and one sync cycle in which the app reports a running
  session.\<close>

definition blockingSession :: ext where
  "blockingSession = syncWithApp sessionOnNet (initialize emptyStorage)"

text \<open>A state with one always-blocked site.\<close>

definition adultListed :: ext where
  "adultListed = (initialize emptyStorage)\<lparr>alwaysBlockedSites := [''adult.example'']\<rparr>"

text \<open>Two usage reports, a state with both in the offline queue, and answers of the
  server to the requests of a flush: the first request gets an error status and the
  others are accepted; no request gets through.\<close>

definition reportA :: usageReport where
  "reportA = \<lparr>reportDomain = ''a.example'', reportSeconds = 12\<rparr>"

definition reportB :: usageReport where
  "reportB = \<lparr>reportDomain = ''b.example'', reportSeconds = 30\<rparr>"

definition twoQueued :: ext where
  "twoQueued = (initialize emptyStorage)\<lparr>usageReportQueue := [reportA, reportB]\<rparr>"

definition firstRefused :: "nat \<Rightarrow> unit response" where
  "firstRefused i = (if i = 0 then Response False None else Response True None)"

definition unreachable :: "nat \<Rightarrow> unit response" where
  "unreachable i = NetworkError"

text \<open>A connected state with one session-blocked site, an answer of the classifier that
  flags a page, and the answers of a sync cycle that starts a session and brings a new
  list of always-blocked sites.\<close>

definition connectedIdle :: ext where
  "connectedIdle = (initialize emptyStorage)\<lparr>appConnected := True, blockedSites := [''youtube.com'']\<rparr>"

definition flagged :: checkResult where
  "flagged = \<lparr>is_nsfw = True, nsfw_method = ''heuristic''\<rparr>"

definition refreshNet :: net where
  "refreshNet =
     \<lparr>statusResp = Response True (Some True),
      sitesResp = Response True (Some \<lparr>sitesField = None,
                    alwaysBlockedField = Some [''other.example''], whitelistField = None\<rparr>),
      punishmentResp = NetworkError, cacheResp = NetworkError\<rparr>"

text \<open>The state after the classifier has flagged \<^verbatim>\<open>casino.example\<close>, a storage that
  holds a list of blocked sites, and a run in which a page finishes loading twice before
  the classifier answers.\<close>

definition afterClassification :: ext where
  "afterClassification =
     checkPageContent ''moz-extension://0a1b/'' NetworkError (Response True (Some flagged)) 7
       ''https://casino.example/'' ''casino.example'' connectedIdle"

definition youtubeOnly :: storage where
  "youtubeOnly = emptyStorage\<lparr>storedBlockedSites := Some [''youtube.com'']\<rparr>"

definition loadedTwice :: "event list" where
  "loadedTwice =
     [PageLoaded (Some (Response True None)) ''casino.example'',
      PageLoaded None ''casino.example'']"

section \<open>Facts about the patterns\<close>

lemma compileLiteral_escapeRegExp: "compileLiteral (escapeRegExp s) = Some (literal s)"
proof (induction s)
  case Nil
  show ?case by simp
next
  case (Cons c cs)
  show ?case
  proof (cases "isSyntaxChar c")
    case True
    then show ?thesis using Cons.IH by simp
  next
    case False
    then have nb: "c \<noteq> backslash" by (auto simp: isSyntaxChar_def)
    show ?thesis
    proof (cases "escapeRegExp cs")
      case Nil
      with Cons.IH have "literal cs = Eps" by simp
      with Nil False show ?thesis by simp
    next
      case (Cons d ds)
      with Cons.IH False nb show ?thesis by simp
    qed
  qed
qed

lemma compileSite_literal: "compileSite site = literal (stripSite site)"
  by (simp add: compileSite_def compileLiteral_escapeRegExp)

lemma set_rmatch_literal:
  "set (rmatch (literal p) s) =
     (if startsWithIgnoreCase s p then {drop (length p) s} else {})"
proof (induction p arbitrary: s)
  case Nil
  show ?case by (simp add: startsWithIgnoreCase_def)
next
  case (Cons c cs)
  show ?case
  proof (cases s)
    case Nil
    then show ?thesis by (simp add: startsWithIgnoreCase_def)
  next
    case (Cons x xs)
    then show ?thesis
      using Cons.IH [of xs] by (auto simp: startsWithIgnoreCase_def)
  qed
qed

lemma set_rmatch_Cat:
  "set (rmatch (Cat r1 r2) s) = (\<Union>t \<in> set (rmatch r1 s). set (rmatch r2 t))"
  by simp

lemma set_rmatch_alternatives:
  "rs \<noteq> [] \<Longrightarrow> set (rmatch (alternatives rs) s) = (\<Union>r \<in> set rs. set (rmatch r s))"
  by (induction rs rule: alternatives.induct) auto

lemma startsWithIgnoreCase_append:
  "startsWithIgnoreCase s (p @ q) \<longleftrightarrow>
     startsWithIgnoreCase s p \<and> startsWithIgnoreCase (drop (length p) s) q"
proof -
  have "prefix (map canonicalize p @ map canonicalize q) (map canonicalize s) \<longleftrightarrow>
        prefix (map canonicalize p) (map canonicalize s) \<and>
        prefix (map canonicalize q) (drop (length p) (map canonicalize s))"
    by (auto simp: prefix_def)
  then show ?thesis by (simp add: startsWithIgnoreCase_def drop_map)
qed

lemma regexTest_Cat:
  "regexTest (Cat r1 r2) s \<longleftrightarrow> (\<exists>t \<in> set (rmatch r1 s). regexTest r2 t)"
  by (auto simp: regexTest_def)

lemma regexTest_literal_Cat:
  assumes "\<And>t. regexTest r t \<longleftrightarrow> (\<exists>q \<in> Q. startsWithIgnoreCase t q)"
  shows "regexTest (Cat (literal p) r) s \<longleftrightarrow> (\<exists>q \<in> (@) p ` Q. startsWithIgnoreCase s q)"
  unfolding regexTest_Cat set_rmatch_literal
  by (simp add: assms startsWithIgnoreCase_append)

lemma regexTest_Opt_literal_Cat:
  assumes "\<And>t. regexTest r t \<longleftrightarrow> (\<exists>q \<in> Q. startsWithIgnoreCase t q)"
  shows "regexTest (Cat (Opt (literal p)) r) s \<longleftrightarrow>
           (\<exists>q \<in> (@) p ` Q \<union> Q. startsWithIgnoreCase s q)"
proof -
  have "regexTest (Cat (Opt (literal p)) r) s \<longleftrightarrow>
          regexTest (Cat (literal p) r) s \<or> regexTest r s"
    unfolding regexTest_Cat by auto
  then show ?thesis
    unfolding regexTest_literal_Cat [of r Q, OF assms] assms by blast
qed

lemma regexTest_Opt_Lit_Cat:
  "regexTest (Cat (Opt (Lit c)) r) s \<longleftrightarrow> regexTest (Cat (Opt (literal [c])) r) s"
  unfolding regexTest_Cat by simp

lemma regexTest_alternatives:
  assumes "sites \<noteq> []"
  shows "regexTest (alternatives (map compileSite sites)) s \<longleftrightarrow>
     (\<exists>q \<in> stripSite ` set sites. startsWithIgnoreCase s q)"
proof -
  have "regexTest (alternatives (map compileSite sites)) s \<longleftrightarrow>
      set (rmatch (alternatives (map compileSite sites)) s) \<noteq> {}"
    by (simp add: regexTest_def)
  also have "\<dots> \<longleftrightarrow> (\<exists>site \<in> set sites. startsWithIgnoreCase s (stripSite site))"
    using assms by (auto simp: set_rmatch_alternatives compileSite_literal set_rmatch_literal)
  finally show ?thesis by blast
qed

lemma patternTest_buildPatternForSites:
  "patternTest (buildPatternForSites sites) url \<longleftrightarrow>
     (\<exists>site \<in> set sites. \<exists>scheme \<in> {''http://'', ''https://''}. \<exists>w \<in> {[], ''www.''}.
        startsWithIgnoreCase url (scheme @ w @ stripSite site))"
proof (cases "sites = []")
  case True
  then show ?thesis by (simp add: buildPatternForSites_def patternTest_def)
next
  case False
  define Q0 where "Q0 = stripSite ` set sites"
  define Q1 where "Q1 = (@) ''www.'' ` Q0 \<union> Q0"
  define Q2 where "Q2 = (@) ''://'' ` Q1"
  define Q3 where "Q3 = (@) ''s'' ` Q2 \<union> Q2"
  define Q4 where "Q4 = (@) ''http'' ` Q3"
  let ?A = "alternatives (map compileSite sites)"
  let ?B = "Cat (Opt (literal ''www.'')) ?A"
  let ?C = "Cat (literal ''://'') ?B"
  let ?D = "Cat (Opt (Lit CHR ''s'')) ?C"
  let ?E = "Cat (literal ''http'') ?D"
  have 0: "regexTest ?A t \<longleftrightarrow> (\<exists>q \<in> Q0. startsWithIgnoreCase t q)" for t
    unfolding Q0_def by (rule regexTest_alternatives [OF False])
  have 1: "regexTest ?B t \<longleftrightarrow> (\<exists>q \<in> Q1. startsWithIgnoreCase t q)" for t
    unfolding Q1_def by (rule regexTest_Opt_literal_Cat) (rule 0)
  have 2: "regexTest ?C t \<longleftrightarrow> (\<exists>q \<in> Q2. startsWithIgnoreCase t q)" for t
    unfolding Q2_def by (rule regexTest_literal_Cat) (rule 1)
  have 3: "regexTest ?D t \<longleftrightarrow> (\<exists>q \<in> Q3. startsWithIgnoreCase t q)" for t
    unfolding Q3_def regexTest_Opt_Lit_Cat by (rule regexTest_Opt_literal_Cat) (rule 2)
  have 4: "regexTest ?E t \<longleftrightarrow> (\<exists>q \<in> Q4. startsWithIgnoreCase t q)" for t
    unfolding Q4_def by (rule regexTest_literal_Cat) (rule 3)
  have "patternTest (buildPatternForSites sites) url \<longleftrightarrow> regexTest ?E url"
    using False by (simp add: buildPatternForSites_def patternTest_def)
  also have "\<dots> \<longleftrightarrow> (\<exists>q \<in> Q4. startsWithIgnoreCase url q)" by (rule 4)
  also have "\<dots> \<longleftrightarrow> (\<exists>site \<in> set sites. \<exists>scheme \<in> {''http://'', ''https://''}.
      \<exists>w \<in> {[], ''www.''}. startsWithIgnoreCase url (scheme @ w @ stripSite site))"
    unfolding Q4_def Q3_def Q2_def Q1_def Q0_def by (simp add: image_Un image_image bex_Un) blast
  finally show ?thesis .
qed

lemma startsWithIgnoreCase_self: "startsWithIgnoreCase (p @ rest) p"
  by (simp add: startsWithIgnoreCase_def)

lemma patternTest_listed_site:
  assumes "site \<in> set sites" and "stripSite site = site"
  shows "patternTest (buildPatternForSites sites) (''https://'' @ site @ rest)"
proof -
  have "startsWithIgnoreCase (''https://'' @ site @ rest) (''https://'' @ [] @ stripSite site)"
    using startsWithIgnoreCase_self [of "''https://'' @ site" rest] assms(2) by simp
  with assms(1) show ?thesis
    unfolding patternTest_buildPatternForSites by blast
qed

section \<open>Claims about the block patterns\<close>

text \<open>
  Claim C1 (as amended). The matcher compiled from a block list reads the text of the URL.
  It accepts a URL exactly when, ignoring the case of letters, the URL begins with
  \<^verbatim>\<open>http://\<close> or \<^verbatim>\<open>https://\<close>, then an optional \<^verbatim>\<open>www.\<close>, then one of the
  configured domains after its scheme and leading \<^verbatim>\<open>www.\<close> have been stripped. So every
  URL that is such a scheme, an optional \<^verbatim>\<open>www.\<close>, a stripped domain of the list and then
  anything at all is accepted. The URLs \<^verbatim>\<open>https://notexample.com\<close> and
  \<^verbatim>\<open>https://youtube-downloader.com\<close> are not accepted for the rules \<^verbatim>\<open>example.com\<close>
  and \<^verbatim>\<open>youtube.com\<close>, and the URL \<^verbatim>\<open>https://sub.example.com/page\<close> is not accepted
  for the rule \<^verbatim>\<open>example.com\<close>.
\<close>

theorem buildPatternForSites_matches_iff:
  "(patternTest (buildPatternForSites sites) url \<longleftrightarrow>
      (\<exists>site \<in> set sites. \<exists>scheme \<in> {''http://'', ''https://''}. \<exists>w \<in> {[], ''www.''}.
         startsWithIgnoreCase url (scheme @ w @ stripSite site)))
   \<and> (site \<in> set sites \<and> scheme \<in> {''http://'', ''https://''} \<and> w \<in> {[], ''www.''} \<longrightarrow>
        patternTest (buildPatternForSites sites) (scheme @ w @ stripSite site @ rest))
   \<and> \<not> patternTest (buildPatternForSites [''example.com'']) ''https://notexample.com''
   \<and> \<not> patternTest (buildPatternForSites [''youtube.com'']) ''https://youtube-downloader.com''
   \<and> \<not> patternTest (buildPatternForSites [''example.com'']) ''https://sub.example.com/page''"
proof (intro conjI impI)
  show "patternTest (buildPatternForSites sites) url \<longleftrightarrow>
      (\<exists>site \<in> set sites. \<exists>scheme \<in> {''http://'', ''https://''}. \<exists>w \<in> {[], ''www.''}.
         startsWithIgnoreCase url (scheme @ w @ stripSite site))"
    by (rule patternTest_buildPatternForSites)
next
  assume a: "site \<in> set sites \<and> scheme \<in> {''http://'', ''https://''} \<and> w \<in> {[], ''www.''}"
  have "startsWithIgnoreCase (scheme @ w @ stripSite site @ rest) (scheme @ w @ stripSite site)"
    using startsWithIgnoreCase_self [of "scheme @ w @ stripSite site" rest] by simp
  with a show "patternTest (buildPatternForSites sites) (scheme @ w @ stripSite site @ rest)"
    unfolding patternTest_buildPatternForSites by blast
next
  show "\<not> patternTest (buildPatternForSites [''example.com'']) ''https://notexample.com''"
    by (simp add: patternTest_buildPatternForSites stripSite_def stripWww_def
        stripProtocol_def startsWithIgnoreCase_def canonicalize_def toUpperChar_def)
next
  show "\<not> patternTest (buildPatternForSites [''youtube.com'']) ''https://youtube-downloader.com''"
    by (simp add: patternTest_buildPatternForSites stripSite_def stripWww_def
        stripProtocol_def startsWithIgnoreCase_def canonicalize_def toUpperChar_def)
next
  show "\<not> patternTest (buildPatternForSites [''example.com'']) ''https://sub.example.com/page''"
    by (simp add: patternTest_buildPatternForSites stripSite_def stripWww_def
        stripProtocol_def startsWithIgnoreCase_def canonicalize_def toUpperChar_def)
qed

theorem buildPatternForSites_matches_iff_witness:
  "''youtube.com'' \<in> set [''youtube.com'']
   \<and> stripSite ''youtube.com'' = ''youtube.com''
   \<and> patternTest (buildPatternForSites [''youtube.com'']) ''https://www.youtube.com/watch''
   \<and> patternTest (buildPatternForSites [''https://www.example.com''])
         ''HTTP://www.Example.com/a''"
proof -
  have s: "stripSite ''youtube.com'' = ''youtube.com''"
    by (simp add: stripSite_def stripWww_def stripProtocol_def)
  have 1: "patternTest (buildPatternForSites [''youtube.com''])
             (''https://'' @ ''www.'' @ stripSite ''youtube.com'' @ ''/watch'')"
    using buildPatternForSites_matches_iff [of "[''youtube.com'']" "[]" "''youtube.com''"
        "''https://''" "''www.''" "''/watch''"]
    by simp
  have 2: "patternTest (buildPatternForSites [''https://www.example.com''])
             ''HTTP://www.Example.com/a''"
    using buildPatternForSites_matches_iff [of "[''https://www.example.com'']"
        "''HTTP://www.Example.com/a''" "[]" "[]" "[]" "[]"]
    by (simp add: stripSite_def stripWww_def stripProtocol_def startsWithIgnoreCase_def
        canonicalize_def toUpperChar_def)
  from 1 have "patternTest (buildPatternForSites [''youtube.com'']) ''https://www.youtube.com/watch''"
    by (simp add: s)
  with s 2 show ?thesis by simp
qed

text \<open>The claim as first stated has every URL whose host is a subdomain of a configured
  domain matched. This URL, with the host \<^verbatim>\<open>sub.example.com\<close>, is not matched by the rule
  \<^verbatim>\<open>example.com\<close>.\<close>

theorem buildPatternForSites_subdomain_counterexample:
  "\<not> patternTest (buildPatternForSites [''example.com'']) ''https://sub.example.com/page''"
  by (simp add: buildPatternForSites_def patternTest_def regexTest_def compileSite_def
      stripSite_def stripWww_def stripProtocol_def isSyntaxChar_def backslash_def
      canonicalize_def toUpperChar_def)

text \<open>Nothing anchors the end of the domain: these two URLs, whose text goes on after
  the domain, are matched.\<close>

lemma buildPatternForSites_longer_host_matches:
  "patternTest (buildPatternForSites [''example.com'']) ''https://example.com.evil.com/''
   \<and> patternTest (buildPatternForSites [''example.com'']) ''https://example.community/''"
  by (simp add: buildPatternForSites_def patternTest_def regexTest_def compileSite_def
      stripSite_def stripWww_def stripProtocol_def isSyntaxChar_def backslash_def
      canonicalize_def toUpperChar_def)

section \<open>Claims about the request listeners\<close>

text \<open>What the punishment listener lets through: the pages of the extension, and every URL
  that has \<^verbatim>\<open>127.0.0.1\<close> or \<^verbatim>\<open>localhost\<close> anywhere in it.\<close>

lemma punishmentBlockRequest_Allow_iff:
  "punishmentBlockRequest base url = Allow \<longleftrightarrow>
     startsWith url base \<or> includesStr url ''127.0.0.1'' \<or> includesStr url ''localhost''"
  by (simp add: punishmentBlockRequest_def getURL_def)

text \<open>
  Claim C2. Under the punishment lock only the extension's own pages and URLs whose host is
  the loopback address or \<^verbatim>\<open>localhost\<close> are to be allowed. The listener tests the whole
  URL for the substring, so a page of \<^verbatim>\<open>example.com\<close> with \<^verbatim>\<open>localhost\<close> in its path
  is allowed.
\<close>

theorem punishmentBlockRequest_localhost_in_path:
  "punishmentBlockRequest ''moz-extension://0a1b/'' ''https://example.com/localhost'' = Allow"
  by (simp add: punishmentBlockRequest_def getURL_def startsWith_def)

text \<open>
  Claim C5. In the session listener the whitelist is consulted before the block pattern:
  a URL that \<^verbatim>\<open>isWhitelisted\<close> accepts is allowed, and neither the counter nor anything
  else changes, whether or not the URL matches the pattern of the blocked sites.
\<close>

theorem blockRequest_whitelisted:
  "isWhitelisted st url \<Longrightarrow> blockRequest base st url = (Allow, st)"
  by (simp add: blockRequest_def)

theorem blockRequest_whitelisted_witness:
  "isWhitelisted youtubeSession ''https://youtube.com/watch?v=abc''
   \<and> patternTest (buildBlockPattern youtubeSession) ''https://youtube.com/watch?v=abc''
   \<and> blockRequest ''moz-extension://0a1b/'' youtubeSession ''https://youtube.com/watch?v=abc''
       = (Allow, youtubeSession)"
proof -
  have w: "isWhitelisted youtubeSession ''https://youtube.com/watch?v=abc''"
    by (simp add: isWhitelisted_def youtubeSession_def initialize_def loaded_def emptyStorage_def
        startAlwaysBlocking_def toLowerCase_def toLowerChar_def startsWith_def
        stripProtocol_def stripWww_def)
  have p: "patternTest (buildBlockPattern youtubeSession) ''https://youtube.com/watch?v=abc''"
    using patternTest_listed_site [of "''youtube.com''" "[''youtube.com'']" "''/watch?v=abc''"]
    by (simp add: buildBlockPattern_def youtubeSession_def stripSite_def stripProtocol_def
        stripWww_def)
  show ?thesis
    using w p blockRequest_whitelisted [OF w, of "''moz-extension://0a1b/''"] by simp
qed

text \<open>
  Claim C4. When the pattern of the always-blocked sites matches a URL, the always-block
  listener redirects to the blocked page with the adult marker, adds one to the block
  counter (and stores it) and sends a strike report. The whitelist is never consulted:
  the result is the same for every whitelist \<open>wl\<close>.
\<close>

theorem alwaysBlockRequest_ignores_whitelist:
  assumes "patternTest (buildAlwaysBlockPattern st) url"
  shows "alwaysBlockRequest base (st\<lparr>whitelistedUrls := wl\<rparr>) url =
     (Redirect (getURL base ''blocked.html'' @ ''?url='' @ encodeURIComponent url @ ''&adult=1''),
      st\<lparr>whitelistedUrls := wl,
         blockCount := blockCount st + 1,
         store := (store st)\<lparr>storedBlockCount := Some (blockCount st + 1)\<rparr>,
         effects := effects st @ [PostAdultStrike]\<rparr>)"
  using assms
  by (simp add: alwaysBlockRequest_def buildAlwaysBlockPattern_def countBlock_def
      reportAdultStrike_def)

theorem alwaysBlockRequest_ignores_whitelist_witness:
  "patternTest (buildAlwaysBlockPattern adultListed) ''https://adult.example/''
   \<and> isWhitelisted (adultListed\<lparr>whitelistedUrls := [''https://adult.example/'']\<rparr>)
        ''https://adult.example/''
   \<and> fst (alwaysBlockRequest ''moz-extension://0a1b/''
        (adultListed\<lparr>whitelistedUrls := [''https://adult.example/'']\<rparr>)
        ''https://adult.example/'')
       = Redirect ''moz-extension://0a1b/blocked.html?url=https%3A%2F%2Fadult.example%2F&adult=1''
   \<and> blockCount (snd (alwaysBlockRequest ''moz-extension://0a1b/''
        (adultListed\<lparr>whitelistedUrls := [''https://adult.example/'']\<rparr>)
        ''https://adult.example/'')) = 1"
proof -
  have p: "patternTest (buildAlwaysBlockPattern adultListed) ''https://adult.example/''"
    using patternTest_listed_site [of "''adult.example''" "[''adult.example'']" "''/''"]
    by (simp add: buildAlwaysBlockPattern_def adultListed_def stripSite_def stripProtocol_def
        stripWww_def)
  have w: "isWhitelisted (adultListed\<lparr>whitelistedUrls := [''https://adult.example/'']\<rparr>)
        ''https://adult.example/''"
    by (simp add: isWhitelisted_def toLowerCase_def toLowerChar_def)
  have e: "encodeURIComponent ''https://adult.example/'' = ''https%3A%2F%2Fadult.example%2F''"
    by code_simp
  have c: "blockCount adultListed = 0"
    by (simp add: adultListed_def initialize_def loaded_def emptyStorage_def
        startAlwaysBlocking_def)
  show ?thesis
    using p w
      alwaysBlockRequest_ignores_whitelist [OF p, of "''moz-extension://0a1b/''"
        "[''https://adult.example/'']"]
    by (simp add: e c getURL_def)
qed

section \<open>Claims about the sync cycle\<close>

lemma checkCachedPunishmentStatus_keeps:
  "appConnected (checkCachedPunishmentStatus st) = appConnected st"
  "isBlocking (checkCachedPunishmentStatus st) = isBlocking st"
  "sessionListener (checkCachedPunishmentStatus st) = sessionListener st"
  "blockedSites (checkCachedPunishmentStatus st) = blockedSites st"
  "whitelistedUrls (checkCachedPunishmentStatus st) = whitelistedUrls st"
  "alwaysBlockedSites (checkCachedPunishmentStatus st) = alwaysBlockedSites st"
  "aiCheckInProgress (checkCachedPunishmentStatus st) = aiCheckInProgress st"
  by (simp_all add: checkCachedPunishmentStatus_def Let_def startPunishmentBlocking_def
      stopPunishmentBlocking_def split: option.splits)

lemma checkPunishmentStatus_keeps:
  "appConnected (checkPunishmentStatus resp st) = appConnected st"
  "isBlocking (checkPunishmentStatus resp st) = isBlocking st"
  "sessionListener (checkPunishmentStatus resp st) = sessionListener st"
  "blockedSites (checkPunishmentStatus resp st) = blockedSites st"
  "whitelistedUrls (checkPunishmentStatus resp st) = whitelistedUrls st"
  "alwaysBlockedSites (checkPunishmentStatus resp st) = alwaysBlockedSites st"
  "aiCheckInProgress (checkPunishmentStatus resp st) = aiCheckInProgress st"
  by (simp_all add: checkPunishmentStatus_def checkCachedPunishmentStatus_keeps Let_def
      startPunishmentBlocking_def stopPunishmentBlocking_def
      split: response.splits option.splits bool.splits)

lemma syncAICache_keeps:
  "appConnected (syncAICache resp st) = appConnected st"
  "isBlocking (syncAICache resp st) = isBlocking st"
  "sessionListener (syncAICache resp st) = sessionListener st"
  "blockedSites (syncAICache resp st) = blockedSites st"
  "whitelistedUrls (syncAICache resp st) = whitelistedUrls st"
  "alwaysBlockedSites (syncAICache resp st) = alwaysBlockedSites st"
  "aiCheckInProgress (syncAICache resp st) = aiCheckInProgress st"
  by (simp_all add: syncAICache_def split: response.splits option.splits bool.splits)

lemma syncFailed_result:
  "\<not> appConnected (syncFailed st)"
  "\<not> isBlocking (syncFailed st)"
  "isBlocking st \<Longrightarrow> \<not> sessionListener (syncFailed st)"
  "\<not> isBlocking st \<Longrightarrow> sessionListener (syncFailed st) = sessionListener st"
  "blockedSites (syncFailed st) = blockedSites st"
  "whitelistedUrls (syncFailed st) = whitelistedUrls st"
  "alwaysBlockedSites (syncFailed st) = alwaysBlockedSites st"
  "aiCheckInProgress (syncFailed st) = aiCheckInProgress st"
  by (simp_all add: syncFailed_def checkCachedPunishmentStatus_keeps Let_def stopBlocking_def)

lemma syncWithApp_thrown:
  assumes "statusResp n = NetworkError \<or> statusResp n = Response True None"
  shows "syncWithApp n st = syncFailed st"
  using assms by (auto simp: syncWithApp_def)

lemma syncWithApp_not_ok:
  assumes "statusResp n = Response False body"
  shows "syncWithApp n st =
     syncAICache (cacheResp n)
       (checkPunishmentStatus (punishmentResp n) (st\<lparr>appConnected := False\<rparr>))"
  using assms by (simp add: syncWithApp_def)

text \<open>
  Claim C3 (as amended). If the request for \<^verbatim>\<open>/status\<close> throws, because the server cannot
  be reached or because the body of its answer does not parse, while \<^verbatim>\<open>isBlocking\<close> is
  true, then after the cycle \<^verbatim>\<open>appConnected\<close> is false, \<^verbatim>\<open>isBlocking\<close> is false and the
  session listener is removed. An answer with an error status is not treated like that:
  what it is sure to do is to set \<^verbatim>\<open>appConnected\<close> to false.
\<close>

theorem syncWithApp_status_poll_fails:
  "(statusResp n = NetworkError \<or> statusResp n = Response True None \<longrightarrow>
      \<not> appConnected (syncWithApp n st) \<and> \<not> isBlocking (syncWithApp n st) \<and>
      (isBlocking st \<longrightarrow> \<not> sessionListener (syncWithApp n st)))
   \<and> (statusResp n = Response False body \<longrightarrow> \<not> appConnected (syncWithApp n st))"
proof (intro conjI impI)
  assume "statusResp n = Response False body"
  then show "\<not> appConnected (syncWithApp n st)"
    by (simp add: syncWithApp_not_ok syncAICache_keeps checkPunishmentStatus_keeps)
next
  assume a: "statusResp n = NetworkError \<or> statusResp n = Response True None"
  show "\<not> appConnected (syncWithApp n st)"
    by (simp add: syncWithApp_thrown [OF a] syncFailed_result)
  show "\<not> isBlocking (syncWithApp n st)"
    by (simp add: syncWithApp_thrown [OF a] syncFailed_result)
  assume "isBlocking st"
  then show "\<not> sessionListener (syncWithApp n st)"
    by (simp add: syncWithApp_thrown [OF a] syncFailed_result)
qed

lemma initialize_fields:
  "\<not> isBlocking (initialize data)"
  "\<not> appConnected (initialize data)"
  "\<not> sessionListener (initialize data)"
  "alwaysListener (initialize data)"
  "aiCheckInProgress (initialize data) = {}"
  "aiCheckedDomains (initialize data) =
     (case storedAiCheckedDomains data of Some ds \<Rightarrow> ds | None \<Rightarrow> {})"
  "effects (initialize data) = []"
  "usageReportQueue (initialize data) = []"
  "blockedSites (initialize data) =
     (case storedBlockedSites data of Some l \<Rightarrow> l | None \<Rightarrow> DEFAULT_BLOCKED_SITES)"
  "whitelistedUrls (initialize data) =
     (case storedWhitelistedUrls data of Some l \<Rightarrow> l | None \<Rightarrow> [])"
  "alwaysBlockedSites (initialize data) =
     (case storedAlwaysBlockedSites data of Some l \<Rightarrow> l | None \<Rightarrow> [])"
  by (simp_all add: initialize_def loaded_def Let_def startAlwaysBlocking_def
      startPunishmentBlocking_def split: option.splits)

lemma blockingSession_fields:
  "isBlocking blockingSession" "sessionListener blockingSession" "appConnected blockingSession"
  by (simp_all add: blockingSession_def sessionOnNet_def syncWithApp_def Let_def
      syncAICache_keeps checkPunishmentStatus_keeps startBlocking_def fetchBlockedSites_def
      initialize_fields)

theorem syncWithApp_status_poll_fails_witness:
  "isBlocking blockingSession \<and> sessionListener blockingSession
   \<and> statusResp serverDownNet = NetworkError
   \<and> \<not> appConnected (syncWithApp serverDownNet blockingSession)
   \<and> \<not> isBlocking (syncWithApp serverDownNet blockingSession)
   \<and> \<not> sessionListener (syncWithApp serverDownNet blockingSession)"
proof -
  have s: "statusResp serverDownNet = NetworkError" by (simp add: serverDownNet_def)
  show ?thesis
    using syncWithApp_status_poll_fails [of serverDownNet blockingSession] s
    by (simp add: blockingSession_fields)
qed

text \<open>The claim as first stated treats an answer that is not OK like an unreachable
  server. After such an answer the session is still blocking and its listener is still
  registered.\<close>

theorem syncWithApp_not_ok_counterexample:
  "isBlocking blockingSession
   \<and> statusResp serverErrorNet = Response False None
   \<and> \<not> appConnected (syncWithApp serverErrorNet blockingSession)
   \<and> isBlocking (syncWithApp serverErrorNet blockingSession)
   \<and> sessionListener (syncWithApp serverErrorNet blockingSession)"
proof -
  have s: "statusResp serverErrorNet = Response False None" by (simp add: serverErrorNet_def)
  show ?thesis
    by (simp add: s syncWithApp_not_ok [OF s] syncAICache_keeps checkPunishmentStatus_keeps
        blockingSession_fields)
qed

lemma manualToggle_disconnected:
  assumes "\<not> appConnected st" and "\<not> isBlocking st"
  shows "isBlocking (snd (manualToggle st))"
    and "sessionListener (snd (manualToggle st))"
    and "blockedSites (snd (manualToggle st)) = blockedSites st"
    and "whitelistedUrls (snd (manualToggle st)) = whitelistedUrls st"
  using assms by (simp_all add: manualToggle_def Let_def startBlocking_def)

lemma stripSite_DEFAULT_BLOCKED_SITES:
  "site \<in> set DEFAULT_BLOCKED_SITES \<Longrightarrow> stripSite site = site"
  by (auto simp: DEFAULT_BLOCKED_SITES_def stripSite_def stripProtocol_def stripWww_def)

text \<open>
  Claim C10. When storage holds no list of blocked sites, \<^verbatim>\<open>initialize\<close> takes the
  built-in list of ten domains. If the first sync then finds no server and the user
  switches blocking on by hand, the session listener is registered and redirects every
  URL \<^verbatim>\<open>https://\<close>D\<open>\<dots>\<close> for a domain D of that list (unless the URL is whitelisted),
  although no server ever supplied a rule.
\<close>

theorem initialize_default_blocked_sites:
  assumes "storedBlockedSites data = None"
  shows "blockedSites (initialize data) =
           [''facebook.com'', ''twitter.com'', ''x.com'', ''instagram.com'', ''tiktok.com'',
            ''reddit.com'', ''youtube.com'', ''twitch.tv'', ''netflix.com'', ''discord.com'']
     \<and> (statusResp n = NetworkError \<longrightarrow>
          (let st = snd (manualToggle (syncWithApp n (initialize data))) in
             isBlocking st \<and> sessionListener st \<and> blockedSites st = DEFAULT_BLOCKED_SITES \<and>
             (\<forall>site \<in> set DEFAULT_BLOCKED_SITES. \<forall>rest.
                \<not> isWhitelisted st (''https://'' @ site @ rest) \<longrightarrow>
                  fst (blockRequest base st (''https://'' @ site @ rest)) =
                    Redirect (getURL base ''blocked.html'' @ ''?url=''
                              @ encodeURIComponent (''https://'' @ site @ rest)))))"
proof (intro conjI impI)
  show "blockedSites (initialize data) =
           [''facebook.com'', ''twitter.com'', ''x.com'', ''instagram.com'', ''tiktok.com'',
            ''reddit.com'', ''youtube.com'', ''twitch.tv'', ''netflix.com'', ''discord.com'']"
    using assms by (simp add: initialize_fields DEFAULT_BLOCKED_SITES_def)
next
  assume down: "statusResp n = NetworkError"
  define st0 where "st0 = syncWithApp n (initialize data)"
  define st where "st = snd (manualToggle st0)"
  have st0: "\<not> appConnected st0" "\<not> isBlocking st0" "blockedSites st0 = DEFAULT_BLOCKED_SITES"
    using down assms
    by (simp_all add: st0_def syncWithApp_thrown syncFailed_result initialize_fields)
  have 1: "isBlocking st" and 2: "sessionListener st"
    and 3: "blockedSites st = DEFAULT_BLOCKED_SITES"
    using manualToggle_disconnected [OF st0(1) st0(2)] st0(3) by (simp_all add: st_def)
  have 4: "fst (blockRequest base st (''https://'' @ site @ rest)) =
             Redirect (getURL base ''blocked.html'' @ ''?url=''
                       @ encodeURIComponent (''https://'' @ site @ rest))"
    if "site \<in> set DEFAULT_BLOCKED_SITES"
      and "\<not> isWhitelisted st (''https://'' @ site @ rest)" for site rest
  proof -
    have "patternTest (buildBlockPattern st) (''https://'' @ site @ rest)"
      unfolding buildBlockPattern_def 3
      by (rule patternTest_listed_site [OF that(1) stripSite_DEFAULT_BLOCKED_SITES [OF that(1)]])
    with that(2) show ?thesis by (simp add: blockRequest_def)
  qed
  show "let st = snd (manualToggle (syncWithApp n (initialize data))) in
             isBlocking st \<and> sessionListener st \<and> blockedSites st = DEFAULT_BLOCKED_SITES \<and>
             (\<forall>site \<in> set DEFAULT_BLOCKED_SITES. \<forall>rest.
                \<not> isWhitelisted st (''https://'' @ site @ rest) \<longrightarrow>
                  fst (blockRequest base st (''https://'' @ site @ rest)) =
                    Redirect (getURL base ''blocked.html'' @ ''?url=''
                              @ encodeURIComponent (''https://'' @ site @ rest)))"
    using 1 2 3 4 unfolding st_def st0_def Let_def by blast
qed

theorem initialize_default_blocked_sites_witness:
  "storedBlockedSites emptyStorage = None
   \<and> statusResp serverDownNet = NetworkError
   \<and> length (blockedSites (initialize emptyStorage)) = 10
   \<and> isBlocking (snd (manualToggle (syncWithApp serverDownNet (initialize emptyStorage))))
   \<and> fst (blockRequest ''moz-extension://0a1b/''
            (snd (manualToggle (syncWithApp serverDownNet (initialize emptyStorage))))
            ''https://youtube.com/watch'')
       = Redirect ''moz-extension://0a1b/blocked.html?url=https%3A%2F%2Fyoutube.com%2Fwatch''"
proof -
  have s: "storedBlockedSites emptyStorage = None" by (simp add: emptyStorage_def)
  have d: "statusResp serverDownNet = NetworkError" by (simp add: serverDownNet_def)
  define st where "st = snd (manualToggle (syncWithApp serverDownNet (initialize emptyStorage)))"
  have wl: "whitelistedUrls st = []"
    unfolding st_def
    by (subst manualToggle_disconnected(4))
       (simp_all add: syncWithApp_thrown d syncFailed_result initialize_fields emptyStorage_def)
  then have nw: "\<not> isWhitelisted st (''https://'' @ ''youtube.com'' @ ''/watch'')"
    by (simp add: isWhitelisted_def)
  have y: "''youtube.com'' \<in> set DEFAULT_BLOCKED_SITES"
    by (simp add: DEFAULT_BLOCKED_SITES_def)
  have e: "encodeURIComponent ''https://youtube.com/watch'' = ''https%3A%2F%2Fyoutube.com%2Fwatch''"
    by code_simp
  show ?thesis
    using initialize_default_blocked_sites [OF s, of serverDownNet "''moz-extension://0a1b/''"]
      d nw y
    unfolding Let_def st_def [symmetric]
    by (auto simp: s e getURL_def)
qed

section \<open>Claims about the usage queue\<close>

lemma requeued_Cons:
  "requeued answer i (r # queue) =
     (if delivered (answer i) then [] else [r]) @ requeued answer (Suc i) queue"
proof -
  have a: "i + length (r # queue) = Suc i + length queue"
    by simp
  have b: "[i..<Suc i + length queue] = i # [Suc i..<Suc i + length queue]"
    by (rule upt_conv_Cons) simp
  show ?thesis
    unfolding requeued_def a b by simp
qed

lemma requeued_Nil: "requeued answer i [] = []"
  by (simp add: requeued_def)

lemma flushLoop_pass:
  assumes "k \<le> length queue"
    and "\<forall>j<k. answer (i + j) \<noteq> NetworkError"
    and "k < length queue \<longrightarrow> answer (i + k) = NetworkError"
  shows "effects (flushLoop answer i queue st) = effects st @ map PostUsage (take (Suc k) queue)
    \<and> usageReportQueue (flushLoop answer i queue st) =
        usageReportQueue st @ requeued answer i (take (Suc k) queue)"
  using assms
proof (induction queue arbitrary: i k st)
  case Nil
  then show ?case by (simp add: requeued_Nil)
next
  case (Cons r queue)
  show ?case
  proof (cases "answer i")
    case NetworkError
    with Cons.prems(2) have "k = 0" by (cases k) auto
    with NetworkError show ?thesis
      by (simp add: requeued_Cons requeued_Nil delivered_def)
  next
    case (Response ok body)
    have "k \<noteq> 0"
    proof
      assume "k = 0"
      with Cons.prems(3) have "answer i = NetworkError" by simp
      with Response show False by simp
    qed
    then obtain k' where k: "k = Suc k'" by (cases k) auto
    have 1: "k' \<le> length queue" using Cons.prems(1) k by simp
    have 2: "\<forall>j<k'. answer (Suc i + j) \<noteq> NetworkError"
      using Cons.prems(2) k by auto
    have 3: "k' < length queue \<longrightarrow> answer (Suc i + k') = NetworkError"
      using Cons.prems(3) k by simp
    show ?thesis
      using Cons.IH [OF 1 2 3] Response k
      by (cases ok) (simp_all add: requeued_Cons delivered_def)
  qed
qed

lemma flushUsageQueue_pass:
  assumes "k \<le> length (usageReportQueue st)"
    and "\<forall>j<k. answer j \<noteq> NetworkError"
    and "k < length (usageReportQueue st) \<longrightarrow> answer k = NetworkError"
  shows "effects (flushUsageQueue answer st) =
           effects st @ map PostUsage (take (Suc k) (usageReportQueue st))"
    and "usageReportQueue (flushUsageQueue answer st) =
           requeued answer 0 (take (Suc k) (usageReportQueue st))"
proof -
  have "effects (flushUsageQueue answer st) =
           effects st @ map PostUsage (take (Suc k) (usageReportQueue st))
      \<and> usageReportQueue (flushUsageQueue answer st) =
           requeued answer 0 (take (Suc k) (usageReportQueue st))"
  proof (cases "usageReportQueue st = []")
    case True
    then show ?thesis by (simp add: flushUsageQueue_def requeued_Nil)
  next
    case False
    then show ?thesis
      using flushLoop_pass [of k "usageReportQueue st" answer 0 "st\<lparr>usageReportQueue := []\<rparr>"]
        assms
      by (simp add: flushUsageQueue_def)
  qed
  then show "effects (flushUsageQueue answer st) =
           effects st @ map PostUsage (take (Suc k) (usageReportQueue st))"
    and "usageReportQueue (flushUsageQueue answer st) =
           requeued answer 0 (take (Suc k) (usageReportQueue st))"
    by simp_all
qed

lemma reportWebsiteUsage_failed:
  assumes "domain \<noteq> []" and "0 < secs"
    and "resp = NetworkError \<or> resp = Response False body"
  shows "usageReportQueue (reportWebsiteUsage resp answer domain secs st) =
           usageReportQueue st @ [\<lparr>reportDomain = domain, reportSeconds = secs\<rparr>]"
  using assms by (auto simp: reportWebsiteUsage_def Let_def)

text \<open>
  Claim C8 (as amended). A usage report whose delivery fails, by a network error or by an
  answer that is not OK, is appended to the offline queue. A drain pass sends the queued
  reports in FIFO order. A report that is answered with an error status is put back and
  the pass goes on with the next report; a report whose request meets a network error is
  put back and the pass stops there. So with \<open>k\<close> the position of the first network error
  of the pass (\<open>k\<close> the length of the queue when there is none), the pass sends the
  first \<open>k + 1\<close> reports in order, and the new queue begins with those of them that
  were not delivered, in order. When no request of the pass meets a network error, the
  new queue is exactly the reports that were not delivered: every report is delivered or
  queued again.
\<close>

theorem usage_queue_retry:
  assumes "k \<le> length (usageReportQueue st)"
    and "\<forall>j<k. answer j \<noteq> NetworkError"
    and "k < length (usageReportQueue st) \<longrightarrow> answer k = NetworkError"
  shows "(domain \<noteq> [] \<and> 0 < secs \<and> (resp = NetworkError \<or> resp = Response False body) \<longrightarrow>
           usageReportQueue (reportWebsiteUsage resp answer' domain secs st) =
             usageReportQueue st @ [\<lparr>reportDomain = domain, reportSeconds = secs\<rparr>])
     \<and> effects (flushUsageQueue answer st) =
           effects st @ map PostUsage (take (Suc k) (usageReportQueue st))
     \<and> prefix (requeued answer 0 (take (Suc k) (usageReportQueue st)))
           (usageReportQueue (flushUsageQueue answer st))
     \<and> (k = length (usageReportQueue st) \<longrightarrow>
           usageReportQueue (flushUsageQueue answer st) = requeued answer 0 (usageReportQueue st))"
  using flushUsageQueue_pass [OF assms] reportWebsiteUsage_failed [of domain secs resp body]
  by auto

lemma twoQueued_fields:
  "usageReportQueue twoQueued = [reportA, reportB]" "effects twoQueued = []"
  by (simp_all add: twoQueued_def initialize_fields)

theorem usage_queue_retry_witness:
  "usageReportQueue (reportWebsiteUsage NetworkError unreachable ''c.example'' 5 twoQueued) =
      [reportA, reportB, \<lparr>reportDomain = ''c.example'', reportSeconds = 5\<rparr>]
   \<and> effects (flushUsageQueue firstRefused twoQueued) = [PostUsage reportA, PostUsage reportB]
   \<and> usageReportQueue (flushUsageQueue firstRefused twoQueued) = [reportA]"
proof -
  have 1: "(2::nat) \<le> length (usageReportQueue twoQueued)"
    by (simp add: twoQueued_fields)
  have 2: "\<forall>j<(2::nat). firstRefused j \<noteq> NetworkError"
    by (simp add: firstRefused_def)
  have 3: "(2::nat) < length (usageReportQueue twoQueued) \<longrightarrow> firstRefused 2 = NetworkError"
    by (simp add: twoQueued_fields)
  have r: "requeued firstRefused 0 [reportA, reportB] = [reportA]"
    by (simp add: requeued_Cons requeued_Nil delivered_def firstRefused_def)
  show ?thesis
    using usage_queue_retry [OF 1 2 3, of "''c.example''" 5 NetworkError None unreachable]
    by (simp add: twoQueued_fields r)
qed

text \<open>The claim as first stated lets a pass stop at its first failure and retries the
  reports in their original order. After an answer with an error status the pass goes
  on: the second report is sent, and delivered, while the first one waits in the queue
  for the next pass.\<close>

theorem flushUsageQueue_goes_on_counterexample:
  "usageReportQueue twoQueued = [reportA, reportB]
   \<and> firstRefused 0 = Response False None
   \<and> effects (flushUsageQueue firstRefused twoQueued) = [PostUsage reportA, PostUsage reportB]
   \<and> usageReportQueue (flushUsageQueue firstRefused twoQueued) = [reportA]"
  by (simp add: flushUsageQueue_def twoQueued_fields firstRefused_def)

text \<open>When a request of a pass meets a network error, the reports behind it in the copy of
  the queue are not looked at again: the second report is neither sent nor queued.\<close>

lemma flushUsageQueue_network_error_example:
  "usageReportQueue twoQueued = [reportA, reportB]
   \<and> effects (flushUsageQueue unreachable twoQueued) = [PostUsage reportA]
   \<and> usageReportQueue (flushUsageQueue unreachable twoQueued) = [reportA]"
  by (simp add: flushUsageQueue_def twoQueued_fields unreachable_def)

section \<open>Claims about the classification of pages\<close>

lemma checkPageContentStart_True:
  assumes "checkPageContentStart ping domain st = (True, st1)"
  shows "aiCheckInProgress st1 = insert domain (aiCheckInProgress st)"
    and "domain \<notin> aiCheckInProgress st"
    and "domain \<notin> aiCheckedDomains st"
    and "aiCheckedDomains st1 = aiCheckedDomains st"
    and "alwaysBlockedSites st1 = alwaysBlockedSites st"
    and "blockedSites st1 = blockedSites st"
    and "effects st1 = effects st"
    and "store st1 = store st"
    and "shouldCheckDomain (st1\<lparr>aiCheckInProgress := aiCheckInProgress st\<rparr>) domain"
proof -
  define st0 where "st0 = (case ping of
      Some (Response True x) \<Rightarrow> st\<lparr>appConnected := True\<rparr> | _ \<Rightarrow> st)"
  have st0: "aiCheckInProgress st0 = aiCheckInProgress st"
    "aiCheckedDomains st0 = aiCheckedDomains st" "alwaysBlockedSites st0 = alwaysBlockedSites st"
    "blockedSites st0 = blockedSites st" "effects st0 = effects st" "store st0 = store st"
    by (simp_all add: st0_def split: option.splits response.splits bool.splits)
  from assms have s: "shouldCheckDomain st0 domain"
    and e: "st1 = st0\<lparr>aiCheckInProgress := insert domain (aiCheckInProgress st0)\<rparr>"
    by (auto simp: checkPageContentStart_def st0_def [symmetric] Let_def split: if_splits)
  from s have n: "domain \<notin> aiCheckInProgress st0" "domain \<notin> aiCheckedDomains st0"
    by (auto simp: shouldCheckDomain_def split: if_splits)
  show "aiCheckInProgress st1 = insert domain (aiCheckInProgress st)"
    and "domain \<notin> aiCheckInProgress st"
    and "domain \<notin> aiCheckedDomains st"
    and "aiCheckedDomains st1 = aiCheckedDomains st"
    and "alwaysBlockedSites st1 = alwaysBlockedSites st"
    and "blockedSites st1 = blockedSites st"
    and "effects st1 = effects st"
    and "store st1 = store st"
    using n by (simp_all add: e st0)
  have "st1\<lparr>aiCheckInProgress := aiCheckInProgress st\<rparr> = st0"
    by (simp add: e st0(1) [symmetric])
  with s show "shouldCheckDomain (st1\<lparr>aiCheckInProgress := aiCheckInProgress st\<rparr>) domain"
    by simp
qed

lemma checkPageContentStart_False:
  assumes "checkPageContentStart ping domain st = (False, st1)"
  shows "aiCheckInProgress st1 = aiCheckInProgress st"
    and "alwaysBlockedSites st1 = alwaysBlockedSites st"
  using assms
  by (auto simp: checkPageContentStart_def Let_def
      split: if_splits option.splits response.splits bool.splits)

lemma classified_keeps:
  "aiCheckInProgress (classified base result tabId url domain st) = aiCheckInProgress st"
  "set (alwaysBlockedSites st) \<subseteq> set (alwaysBlockedSites (classified base result tabId url domain st))"
  by (auto simp: classified_def Let_def reportAdultStrike_def)

lemma shouldCheckDomain_not_listed:
  assumes "shouldCheckDomain st domain"
    and "\<not> prefix ''http://'' domain" and "\<not> prefix ''https://'' domain"
  shows "domain \<notin> set (alwaysBlockedSites st)"
proof
  assume m: "domain \<in> set (alwaysBlockedSites st)"
  have "\<exists>w \<in> {[], ''www.''}. w @ stripSite domain = domain"
    using assms(2,3) by (auto simp: stripSite_def stripProtocol_def stripWww_def prefix_def)
  then obtain w where w: "w \<in> {[], ''www.''}" and d: "w @ stripSite domain = domain"
    by blast
  have "startsWithIgnoreCase (''https://'' @ domain) (''https://'' @ w @ stripSite domain)"
    using startsWithIgnoreCase_self [of "''https://'' @ domain" "[]"] d by simp
  with m w have "patternTest (buildPatternForSites (alwaysBlockedSites st)) (''https://'' @ domain)"
    unfolding patternTest_buildPatternForSites by blast
  with assms(1) show False
    by (simp add: shouldCheckDomain_def buildAlwaysBlockPattern_def split: if_splits)
qed

text \<open>
  Claim C6. Take a run of \<^verbatim>\<open>checkPageContent\<close> that gets as far as asking the
  classifier, and let the classifier answer OK with a result. The domain is added to the
  checked domains (and the set is stored) unless the method of the result is
  \<^verbatim>\<open>disabled\<close> or \<^verbatim>\<open>no_api_key\<close>; in those two cases the checked domains stay as they
  were and do not hold the domain. If the result flags the page, the domain is in the
  always-blocked list afterwards: it is put at the end of the list and the list is
  stored when it was not yet there (which is so for every host name that passed
  \<^verbatim>\<open>shouldCheckDomain\<close>), the tab is sent to the blocked page with the markers
  \<^verbatim>\<open>adult=1&ai=1\<close>, and a strike report is posted.
\<close>

theorem checkPageContent_classified:
  assumes "fst (checkPageContentStart (if appConnected st then None else Some ping) domain st)"
    and "st' = checkPageContent base ping (Response True (Some result)) tabId url domain st"
  shows "(nsfw_method result \<noteq> ''disabled'' \<and> nsfw_method result \<noteq> ''no_api_key'' \<longrightarrow>
            aiCheckedDomains st' = insert domain (aiCheckedDomains st) \<and>
            storedAiCheckedDomains (store st') = Some (insert domain (aiCheckedDomains st)))
     \<and> (nsfw_method result = ''disabled'' \<or> nsfw_method result = ''no_api_key'' \<longrightarrow>
            aiCheckedDomains st' = aiCheckedDomains st \<and> domain \<notin> aiCheckedDomains st')
     \<and> (is_nsfw result \<longrightarrow>
            domain \<in> set (alwaysBlockedSites st') \<and>
            alwaysBlockedSites st' =
              (if domain \<in> set (alwaysBlockedSites st) then alwaysBlockedSites st
               else alwaysBlockedSites st @ [domain]) \<and>
            (domain \<notin> set (alwaysBlockedSites st) \<longrightarrow>
               storedAlwaysBlockedSites (store st') = Some (alwaysBlockedSites st @ [domain])) \<and>
            (\<not> prefix ''http://'' domain \<and> \<not> prefix ''https://'' domain \<longrightarrow>
               alwaysBlockedSites st' = alwaysBlockedSites st @ [domain]) \<and>
            effects st' = effects st @
              [TabUpdate tabId (getURL base ''blocked.html'' @ ''?url=''
                 @ encodeURIComponent url @ ''&adult=1&ai=1''),
               PostAdultStrike])"
proof -
  obtain st1 where start:
    "checkPageContentStart (if appConnected st then None else Some ping) domain st = (True, st1)"
    using assms(1) by (cases "checkPageContentStart (if appConnected st then None else Some ping) domain st") auto
  note f = checkPageContentStart_True [OF start]
  have st': "st' = (classified base result tabId url domain st1)
               \<lparr>aiCheckInProgress := aiCheckInProgress (classified base result tabId url domain st1) - {domain}\<rparr>"
    by (simp add: assms(2) checkPageContent_def start checkPageContentFinish_def Let_def)
  have nl: "domain \<notin> set (alwaysBlockedSites st)"
    if "\<not> prefix ''http://'' domain" "\<not> prefix ''https://'' domain"
    using shouldCheckDomain_not_listed [OF f(9)] that f(5) by simp
  show ?thesis
    unfolding st'
    using f(3) nl
    by (auto simp: classified_def Let_def reportAdultStrike_def f(4,5,7,8))
qed

lemma connectedIdle_fields:
  "appConnected connectedIdle" "blockedSites connectedIdle = [''youtube.com'']"
  "alwaysBlockedSites connectedIdle = []" "aiCheckedDomains connectedIdle = {}"
  "aiCheckInProgress connectedIdle = {}" "effects connectedIdle = []"
  by (simp_all add: connectedIdle_def initialize_def loaded_def emptyStorage_def Let_def
      startAlwaysBlocking_def)

lemma connectedIdle_shouldCheck: "shouldCheckDomain connectedIdle ''casino.example''"
  by (simp add: shouldCheckDomain_def connectedIdle_fields endsWith_def suffix_def
      buildAlwaysBlockPattern_def buildBlockPattern_def patternTest_buildPatternForSites
      startsWithIgnoreCase_def canonicalize_def toUpperChar_def stripSite_def
      stripProtocol_def stripWww_def)

theorem checkPageContent_classified_witness:
  "fst (checkPageContentStart None ''casino.example'' connectedIdle)
   \<and> aiCheckedDomains (checkPageContent ''moz-extension://0a1b/'' NetworkError
        (Response True (Some flagged)) 7 ''https://casino.example/'' ''casino.example''
        connectedIdle) = {''casino.example''}
   \<and> alwaysBlockedSites (checkPageContent ''moz-extension://0a1b/'' NetworkError
        (Response True (Some flagged)) 7 ''https://casino.example/'' ''casino.example''
        connectedIdle) = [''casino.example'']
   \<and> effects (checkPageContent ''moz-extension://0a1b/'' NetworkError
        (Response True (Some flagged)) 7 ''https://casino.example/'' ''casino.example''
        connectedIdle) =
       [TabUpdate 7
          ''moz-extension://0a1b/blocked.html?url=https%3A%2F%2Fcasino.example%2F&adult=1&ai=1'',
        PostAdultStrike]"
proof -
  have s: "fst (checkPageContentStart (if appConnected connectedIdle then None
             else Some NetworkError) ''casino.example'' connectedIdle)"
    using connectedIdle_shouldCheck
    by (simp add: checkPageContentStart_def connectedIdle_fields)
  have e: "encodeURIComponent ''https://casino.example/'' = ''https%3A%2F%2Fcasino.example%2F''"
    by code_simp
  show ?thesis
    using s checkPageContent_classified [OF s refl, where base = "''moz-extension://0a1b/''"
        and result = flagged and tabId = 7 and url = "''https://casino.example/''"]
    by (simp add: connectedIdle_fields flagged_def e getURL_def)
qed

lemma fetchBlockedSites_keeps:
  "aiCheckInProgress (fetchBlockedSites resp st) = aiCheckInProgress st"
  "isBlocking (fetchBlockedSites resp st) = isBlocking st"
  "appConnected (fetchBlockedSites resp st) = appConnected st"
  by (simp_all add: fetchBlockedSites_def Let_def
      split: response.splits option.splits bool.splits)

lemma syncWithApp_inProgress:
  "aiCheckInProgress (syncWithApp n st) = aiCheckInProgress st"
  by (simp add: syncWithApp_def Let_def syncFailed_result syncAICache_keeps
      checkPunishmentStatus_keeps fetchBlockedSites_keeps startBlocking_def stopBlocking_def
      split: response.splits option.splits bool.splits)

lemma manualToggle_inProgress:
  "aiCheckInProgress (snd (manualToggle st)) = aiCheckInProgress st"
  by (simp add: manualToggle_def Let_def startBlocking_def stopBlocking_def)

lemma blockRequest_inProgress:
  "aiCheckInProgress (snd (blockRequest base st url)) = aiCheckInProgress st"
  by (simp add: blockRequest_def countBlock_def)

lemma alwaysBlockRequest_inProgress:
  "aiCheckInProgress (snd (alwaysBlockRequest base st url)) = aiCheckInProgress st"
  by (simp add: alwaysBlockRequest_def countBlock_def reportAdultStrike_def)

lemma adultStrikeAnswered_inProgress:
  "aiCheckInProgress (adultStrikeAnswered resp st) = aiCheckInProgress st"
  by (simp add: adultStrikeAnswered_def split: response.splits option.splits bool.splits)

lemma flushLoop_inProgress:
  "aiCheckInProgress (flushLoop answer i queue st) = aiCheckInProgress st"
  by (induction queue arbitrary: i st)
     (simp_all add: Let_def split: response.splits bool.splits)

lemma flushUsageQueue_inProgress:
  "aiCheckInProgress (flushUsageQueue answer st) = aiCheckInProgress st"
  by (simp add: flushUsageQueue_def flushLoop_inProgress)

lemma reportWebsiteUsage_inProgress:
  "aiCheckInProgress (reportWebsiteUsage resp answer domain secs st) = aiCheckInProgress st"
  by (simp add: reportWebsiteUsage_def Let_def flushUsageQueue_inProgress
      split: response.splits bool.splits)

lemma checkPageContentFinish_inProgress:
  "aiCheckInProgress (checkPageContentFinish base resp tabId url domain st) =
     aiCheckInProgress st - {domain}"
  by (simp add: checkPageContentFinish_def Let_def classified_keeps
      split: response.splits option.splits bool.splits)

lemma shouldCheckDomain_known:
  "domain \<in> aiCheckInProgress st \<or> domain \<in> aiCheckedDomains st \<Longrightarrow>
     \<not> shouldCheckDomain st domain"
  by (auto simp: shouldCheckDomain_def)

text \<open>One piece of code keeps the list of pending calls and the set
  \<^verbatim>\<open>aiCheckInProgress\<close> in step.\<close>

lemma step_PageLoaded:
  assumes "distinct pending" and "set pending = aiCheckInProgress st"
    and "step base (st, pending) (PageLoaded ping domain) = (st', pending')"
  shows "distinct pending' \<and> set pending' = aiCheckInProgress st'"
proof (cases "checkPageContentStart ping domain st")
  case (Pair started st1)
  show ?thesis
  proof (cases started)
    case True
    with Pair have s: "checkPageContentStart ping domain st = (True, st1)" by simp
    from assms(3) have "st' = st1" "pending' = domain # pending" by (simp_all add: s)
    with checkPageContentStart_True(1,2) [OF s] assms(1,2) show ?thesis by simp
  next
    case False
    with Pair have s: "checkPageContentStart ping domain st = (False, st1)" by simp
    from assms(3) have "st' = st1" "pending' = pending" by (simp_all add: s)
    with checkPageContentStart_False(1) [OF s] assms(1,2) show ?thesis by simp
  qed
qed

lemma step_ClassifierAnswered:
  assumes "distinct pending" and "set pending = aiCheckInProgress st"
    and "step base (st, pending) (ClassifierAnswered resp tabId url domain) = (st', pending')"
  shows "distinct pending' \<and> set pending' = aiCheckInProgress st'"
proof (cases "domain \<in> set pending")
  case True
  with assms(3)
  have "st' = checkPageContentFinish base resp tabId url domain st"
    "pending' = remove1 domain pending" by simp_all
  with assms(1,2) show ?thesis
    by (simp add: checkPageContentFinish_inProgress)
next
  case False
  with assms(3) have "st' = st" "pending' = pending" by simp_all
  with assms(1,2) show ?thesis by simp
qed

lemma step_pending:
  assumes "distinct pending" and "set pending = aiCheckInProgress st"
    and "step base (st, pending) ev = (st', pending')"
  shows "distinct pending' \<and> set pending' = aiCheckInProgress st'"
proof (cases ev)
  case (PageLoaded ping domain)
  from assms(3) show ?thesis
    unfolding PageLoaded by (rule step_PageLoaded [OF assms(1,2)])
next
  case (ClassifierAnswered resp tabId url domain)
  from assms(3) show ?thesis
    unfolding ClassifierAnswered by (rule step_ClassifierAnswered [OF assms(1,2)])
next
  case (SyncCycle n)
  with assms(3) have "st' = syncWithApp n st" "pending' = pending" by simp_all
  with assms(1,2) show ?thesis by (simp add: syncWithApp_inProgress)
next
  case ManualToggle
  with assms(3) have "st' = snd (manualToggle st)" "pending' = pending" by simp_all
  with assms(1,2) show ?thesis by (simp add: manualToggle_inProgress)
next
  case (SessionRequest url)
  with assms(3) have "st' = (if sessionListener st then snd (blockRequest base st url) else st)"
    "pending' = pending" by simp_all
  with assms(1,2) show ?thesis by (simp add: blockRequest_inProgress)
next
  case (AlwaysRequest url)
  with assms(3) have "st' = (if alwaysListener st then snd (alwaysBlockRequest base st url) else st)"
    "pending' = pending" by simp_all
  with assms(1,2) show ?thesis by (simp add: alwaysBlockRequest_inProgress)
next
  case (StrikeAnswered resp)
  with assms(3) have "st' = adultStrikeAnswered resp st" "pending' = pending" by simp_all
  with assms(1,2) show ?thesis by (simp add: adultStrikeAnswered_inProgress)
next
  case (UsageReported resp answer domain secs)
  with assms(3) have "st' = reportWebsiteUsage resp answer domain secs st" "pending' = pending"
    by simp_all
  with assms(1,2) show ?thesis by (simp add: reportWebsiteUsage_inProgress)
next
  case (FlushTick answer)
  with assms(3) have "st' = flushUsageQueue answer st" "pending' = pending" by simp_all
  with assms(1,2) show ?thesis by (simp add: flushUsageQueue_inProgress)
qed

lemma foldl_step_pending:
  assumes "distinct pending" and "set pending = aiCheckInProgress st"
    and "foldl (step base) (st, pending) events = (st', pending')"
  shows "distinct pending' \<and> set pending' = aiCheckInProgress st'"
  using assms
proof (induction events arbitrary: st pending)
  case Nil
  then show ?case by simp
next
  case (Cons ev events)
  obtain st1 pending1 where s: "step base (st, pending) ev = (st1, pending1)"
    by (cases "step base (st, pending) ev")
  from step_pending [OF Cons.prems(1,2) s]
  have "distinct pending1" "set pending1 = aiCheckInProgress st1" by simp_all
  moreover from Cons.prems(3) s
  have "foldl (step base) (st1, pending1) events = (st', pending')" by simp
  ultimately show ?case by (rule Cons.IH)
qed

text \<open>
  Claim C7. The second piece of \<^verbatim>\<open>checkPageContent\<close> removes the domain from
  \<^verbatim>\<open>aiCheckInProgress\<close> whatever the answer of the classifier is: a parsed result, a
  body that does not parse, an error status or a rejected request. While a domain is in
  progress, or once it is among the checked domains, \<^verbatim>\<open>shouldCheckDomain\<close> is false.
  So in every run of the extension from its start, whatever the events and their order,
  no domain has two calls waiting for the classifier, and the domains that have one are
  exactly those in \<^verbatim>\<open>aiCheckInProgress\<close>.
\<close>

theorem classification_dedup:
  "domain \<notin> aiCheckInProgress (checkPageContentFinish base resp tabId url domain st)
   \<and> (domain \<in> aiCheckInProgress st \<or> domain \<in> aiCheckedDomains st \<longrightarrow>
        \<not> shouldCheckDomain st domain)
   \<and> (run base data events = (st', pending) \<longrightarrow>
        distinct pending \<and> set pending = aiCheckInProgress st')"
proof (intro conjI impI)
  show "domain \<notin> aiCheckInProgress (checkPageContentFinish base resp tabId url domain st)"
    by (simp add: checkPageContentFinish_inProgress)
next
  assume "domain \<in> aiCheckInProgress st \<or> domain \<in> aiCheckedDomains st"
  then show "\<not> shouldCheckDomain st domain" by (rule shouldCheckDomain_known)
next
  assume r: "run base data events = (st', pending)"
  have "distinct pending \<and> set pending = aiCheckInProgress st'"
    by (rule foldl_step_pending [of "[]" "initialize data" base events])
       (use r in \<open>simp_all add: initialize_fields run_def\<close>)
  then show "distinct pending" and "set pending = aiCheckInProgress st'" by simp_all
qed

lemma loadedTwice_pending:
  "snd (run ''moz-extension://0a1b/'' youtubeOnly loadedTwice) = [''casino.example'']"
proof -
  have 1: "shouldCheckDomain ((initialize youtubeOnly)\<lparr>appConnected := True\<rparr>) ''casino.example''"
    by (simp add: shouldCheckDomain_def initialize_fields endsWith_def suffix_def
      buildAlwaysBlockPattern_def buildBlockPattern_def patternTest_buildPatternForSites
      startsWithIgnoreCase_def canonicalize_def toUpperChar_def stripSite_def
      stripProtocol_def stripWww_def emptyStorage_def youtubeOnly_def)
  have 2: "checkPageContentStart (Some (Response True None)) ''casino.example''
             (initialize youtubeOnly) =
           (True, (initialize youtubeOnly)\<lparr>appConnected := True,
                     aiCheckInProgress := {''casino.example''}\<rparr>)"
    using 1 by (simp add: checkPageContentStart_def initialize_fields)
  have 3: "\<not> shouldCheckDomain ((initialize youtubeOnly)\<lparr>appConnected := True,
                     aiCheckInProgress := {''casino.example''}\<rparr>) ''casino.example''"
    by (rule shouldCheckDomain_known) simp
  have 4: "checkPageContentStart None ''casino.example''
             ((initialize youtubeOnly)\<lparr>appConnected := True,
                     aiCheckInProgress := {''casino.example''}\<rparr>) =
           (False, (initialize youtubeOnly)\<lparr>appConnected := True,
                     aiCheckInProgress := {''casino.example''}\<rparr>)"
    using 3 by (simp add: checkPageContentStart_def)
  show ?thesis
    by (simp add: run_def loadedTwice_def 2 4)
qed

theorem classification_dedup_witness:
  "snd (run ''moz-extension://0a1b/'' youtubeOnly loadedTwice) = [''casino.example'']
   \<and> aiCheckInProgress (fst (run ''moz-extension://0a1b/'' youtubeOnly loadedTwice))
        = {''casino.example''}
   \<and> \<not> shouldCheckDomain (fst (run ''moz-extension://0a1b/'' youtubeOnly loadedTwice))
        ''casino.example''
   \<and> ''casino.example'' \<notin> aiCheckInProgress
        (checkPageContentFinish ''moz-extension://0a1b/'' NetworkError 7
           ''https://casino.example/'' ''casino.example''
           (fst (run ''moz-extension://0a1b/'' youtubeOnly loadedTwice)))"
proof -
  obtain st' pending where r: "run ''moz-extension://0a1b/'' youtubeOnly loadedTwice = (st', pending)"
    by (cases "run ''moz-extension://0a1b/'' youtubeOnly loadedTwice")
  with loadedTwice_pending have p: "pending = [''casino.example'']" by simp
  show ?thesis
    using classification_dedup [of "''casino.example''" "''moz-extension://0a1b/''" NetworkError 7
        "''https://casino.example/''" st' youtubeOnly loadedTwice st' pending] r p
    by auto
qed

text \<open>
  Claim C9 (as amended). A classification never removes a domain from the always-blocked
  list: every domain of the list before a run of \<^verbatim>\<open>checkPageContent\<close> is in the list
  after it. A refresh of the rules does not add to the list, it replaces it: when
  \<^verbatim>\<open>/sites\<close> answers OK with a non-empty \<^verbatim>\<open>alwaysBlocked\<close> array the list becomes that
  array, and in every other case the list stays as it is.
\<close>

theorem alwaysBlockedSites_updates:
  "set (alwaysBlockedSites st) \<subseteq>
     set (alwaysBlockedSites (checkPageContent base ping resp tabId url domain st))
   \<and> alwaysBlockedSites (fetchBlockedSites sresp st) =
       (case sresp of
          Response True (Some data) \<Rightarrow>
            (case alwaysBlockedField data of
               Some l \<Rightarrow> if l \<noteq> [] then l else alwaysBlockedSites st
             | None \<Rightarrow> alwaysBlockedSites st)
        | _ \<Rightarrow> alwaysBlockedSites st)"
proof
  show "set (alwaysBlockedSites st) \<subseteq>
     set (alwaysBlockedSites (checkPageContent base ping resp tabId url domain st))"
  proof (cases "checkPageContentStart (if appConnected st then None else Some ping) domain st")
    case (Pair started st1)
    show ?thesis
    proof (cases started)
      case True
      with Pair have s: "checkPageContentStart (if appConnected st then None else Some ping)
          domain st = (True, st1)" by simp
      have "set (alwaysBlockedSites st1) \<subseteq>
          set (alwaysBlockedSites (checkPageContentFinish base resp tabId url domain st1))"
        using classified_keeps(2) [of st1]
        by (simp add: checkPageContentFinish_def Let_def
            split: response.splits option.splits bool.splits)
      then show ?thesis
        by (simp add: checkPageContent_def s checkPageContentStart_True(5) [OF s])
    next
      case False
      with Pair have s: "checkPageContentStart (if appConnected st then None else Some ping)
          domain st = (False, st1)" by simp
      show ?thesis
        by (simp add: checkPageContent_def s checkPageContentStart_False(2) [OF s])
    qed
  qed
next
  show "alwaysBlockedSites (fetchBlockedSites sresp st) =
       (case sresp of
          Response True (Some data) \<Rightarrow>
            (case alwaysBlockedField data of
               Some l \<Rightarrow> if l \<noteq> [] then l else alwaysBlockedSites st
             | None \<Rightarrow> alwaysBlockedSites st)
        | _ \<Rightarrow> alwaysBlockedSites st)"
    by (simp add: fetchBlockedSites_def Let_def
        split: response.splits option.splits bool.splits)
qed

lemma afterClassification_fields:
  "alwaysBlockedSites afterClassification = [''casino.example'']"
  "\<not> isBlocking afterClassification"
proof -
  have s: "checkPageContentStart None ''casino.example'' connectedIdle =
      (True, connectedIdle\<lparr>aiCheckInProgress := {''casino.example''}\<rparr>)"
    using connectedIdle_shouldCheck
    by (simp add: checkPageContentStart_def connectedIdle_fields)
  have b: "\<not> isBlocking connectedIdle"
    by (simp add: connectedIdle_def initialize_def loaded_def emptyStorage_def Let_def
        startAlwaysBlocking_def)
  show "alwaysBlockedSites afterClassification = [''casino.example'']"
    by (simp add: afterClassification_def checkPageContent_def connectedIdle_fields s
        checkPageContentFinish_def classified_def Let_def flagged_def reportAdultStrike_def)
  show "\<not> isBlocking afterClassification"
    using b
    by (simp add: afterClassification_def checkPageContent_def connectedIdle_fields s
        checkPageContentFinish_def classified_def Let_def flagged_def reportAdultStrike_def)
qed

theorem alwaysBlockedSites_updates_witness:
  "set (alwaysBlockedSites connectedIdle) \<subseteq> set (alwaysBlockedSites afterClassification)
   \<and> alwaysBlockedSites (fetchBlockedSites (sitesResp refreshNet) afterClassification) =
       [''other.example'']
   \<and> alwaysBlockedSites (fetchBlockedSites (sitesResp serverDownNet) afterClassification) =
       [''casino.example'']"
  using alwaysBlockedSites_updates [of connectedIdle "''moz-extension://0a1b/''" NetworkError
      "Response True (Some flagged)" 7 "''https://casino.example/''" "''casino.example''"
      "sitesResp refreshNet"]
    alwaysBlockedSites_updates [of afterClassification "''moz-extension://0a1b/''" NetworkError
      "Response True (Some flagged)" 7 "''https://casino.example/''" "''casino.example''"
      "sitesResp refreshNet"]
    alwaysBlockedSites_updates [of afterClassification "''moz-extension://0a1b/''" NetworkError
      "Response True (Some flagged)" 7 "''https://casino.example/''" "''casino.example''"
      "sitesResp serverDownNet"]
  by (simp add: afterClassification_def [symmetric] refreshNet_def serverDownNet_def
      afterClassification_fields)

text \<open>The claim as first stated lets the list only grow. The domain that the classifier
  put on the list is gone after the next cycle in which the app starts a session and
  sends its own list.\<close>

theorem alwaysBlockedSites_refresh_counterexample:
  "''casino.example'' \<in> set (alwaysBlockedSites afterClassification)
   \<and> ''casino.example'' \<notin> set (alwaysBlockedSites (syncWithApp refreshNet afterClassification))"
  by (simp add: afterClassification_fields syncWithApp_def refreshNet_def Let_def
      syncAICache_keeps checkPunishmentStatus_keeps startBlocking_def fetchBlockedSites_def)

end
